theory Spec2Isabelle
  imports Main "HOL-Library.Sublist" "HOL-Library.Char_ord" "HOL-Library.List_Lexorder"
begin

section \<open>Strings\<close>

text \<open>
  A Go \<^verbatim>\<open>string\<close> is a sequence of bytes; it is modelled as a \<^typ>\<open>string\<close>
  (a list of 8-bit characters). The functions of package \<^verbatim>\<open>strings\<close> that
  \<^verbatim>\<open>autoproxy_pac.go\<close> calls are written out below.
\<close>

definition HasPrefix :: "string \<Rightarrow> string \<Rightarrow> bool" where
  "HasPrefix s p = prefix p s"

definition HasSuffix :: "string \<Rightarrow> string \<Rightarrow> bool" where
  "HasSuffix s p = suffix p s"

section \<open>The published domain list and its match predicate\<close>

text \<open>
  \<^verbatim>\<open>GFWListDomains\<close> holds the slice \<^verbatim>\<open>Domains\<close> behind a reader-writer lock;
  \<open>mu\<close> is true while the write lock is held. \<^verbatim>\<open>GFWListDomainsMatch\<close> takes the
  read lock for the whole loop, so it works on one value of the slice; the model takes
  that value.
\<close>

record GFWListDomains =
  mu :: bool
  Domains :: "string list"

fun match_loop :: "string \<Rightarrow> string list \<Rightarrow> bool" where
  "match_loop d [] = False"
| "match_loop d (domain # rest) =
     (if d = domain \<or> HasSuffix d (''.'' @ domain) then True else match_loop d rest)"

definition GFWListDomainsMatch :: "string \<Rightarrow> GFWListDomains \<Rightarrow> bool" where
  "GFWListDomainsMatch d cd = (if d = [] then False else match_loop d (Domains cd))"

section \<open>More of package strings\<close>

fun Contains :: "string \<Rightarrow> string \<Rightarrow> bool" where
  "Contains [] substr = (substr = [])"
| "Contains (c # cs) substr = (prefix substr (c # cs) \<or> Contains cs substr)"

definition ContainsAny :: "string \<Rightarrow> string \<Rightarrow> bool" where
  "ContainsAny s chars = list_ex (\<lambda>c. c \<in> set chars) s"

text \<open>
  \<^verbatim>\<open>strings.Split(s, sep)\<close> for a non-empty separator, which is what every call in the
  parser passes: the pieces between the non-overlapping occurrences of \<open>sep\<close>, found
  from the left. The result is never empty.
\<close>

function Split :: "string \<Rightarrow> string \<Rightarrow> string list" where
  "Split [] sep = [[]]"
| "Split (c # cs) sep =
     (if sep \<noteq> [] \<and> prefix sep (c # cs)
      then [] # Split (drop (length sep) (c # cs)) sep
      else (case Split cs sep of p # ps \<Rightarrow> (c # p) # ps | [] \<Rightarrow> [[c]]))"
  by pat_completeness auto
termination
  by (relation "measure (\<lambda>(s, sep). length s)") auto

text \<open>\<^verbatim>\<open>strings.SplitN(s, sep, 2)\<close>: cut at the first occurrence of \<open>sep\<close> only.\<close>

fun SplitN2 :: "string \<Rightarrow> string \<Rightarrow> string list" where
  "SplitN2 [] sep = [[]]"
| "SplitN2 (c # cs) sep =
     (if sep \<noteq> [] \<and> prefix sep (c # cs)
      then [[], drop (length sep) (c # cs)]
      else (case SplitN2 cs sep of p # ps \<Rightarrow> (c # p) # ps | [] \<Rightarrow> [[c]]))"

text \<open>
  \<^verbatim>\<open>strings.TrimSpace\<close> removes the leading and trailing white space of Unicode
  (\<^verbatim>\<open>unicode.IsSpace\<close>). In a byte string these are the six ASCII characters and the
  UTF-8 encodings of U+0085, U+00A0, U+1680, U+2000 to U+200A, U+2028, U+2029, U+202F,
  U+205F and U+3000. A lead byte is never a continuation byte, so decoding the first or
  the last rune finds one of them exactly when its bytes stand there.
\<close>

definition spaceRunes :: "string list" where
  "spaceRunes =
     [[CHR 0x09], [CHR 0x0A], [CHR 0x0B], [CHR 0x0C], [CHR 0x0D], [CHR 0x20],
      [CHR 0xC2, CHR 0x85], [CHR 0xC2, CHR 0xA0], [CHR 0xE1, CHR 0x9A, CHR 0x80],
      [CHR 0xE2, CHR 0x80, CHR 0x80], [CHR 0xE2, CHR 0x80, CHR 0x81],
      [CHR 0xE2, CHR 0x80, CHR 0x82], [CHR 0xE2, CHR 0x80, CHR 0x83],
      [CHR 0xE2, CHR 0x80, CHR 0x84], [CHR 0xE2, CHR 0x80, CHR 0x85],
      [CHR 0xE2, CHR 0x80, CHR 0x86], [CHR 0xE2, CHR 0x80, CHR 0x87],
      [CHR 0xE2, CHR 0x80, CHR 0x88], [CHR 0xE2, CHR 0x80, CHR 0x89],
      [CHR 0xE2, CHR 0x80, CHR 0x8A], [CHR 0xE2, CHR 0x80, CHR 0xA8],
      [CHR 0xE2, CHR 0x80, CHR 0xA9], [CHR 0xE2, CHR 0x80, CHR 0xAF],
      [CHR 0xE2, CHR 0x81, CHR 0x9F], [CHR 0xE3, CHR 0x80, CHR 0x80]]"

definition leadingSpace :: "string \<Rightarrow> nat" where
  "leadingSpace s = (case find (\<lambda>r. prefix r s) spaceRunes of Some r \<Rightarrow> length r | None \<Rightarrow> 0)"

definition trailingSpace :: "string \<Rightarrow> nat" where
  "trailingSpace s = (case find (\<lambda>r. suffix r s) spaceRunes of Some r \<Rightarrow> length r | None \<Rightarrow> 0)"

lemma leadingSpace_le: "leadingSpace s \<le> length s"
  by (auto simp: leadingSpace_def prefix_def split: option.splits dest!: find_Some_iff [THEN iffD1])

lemma trailingSpace_le: "trailingSpace s \<le> length s"
  by (auto simp: trailingSpace_def suffix_def split: option.splits dest!: find_Some_iff [THEN iffD1])

function TrimLeft :: "string \<Rightarrow> string" where
  "TrimLeft s = (if leadingSpace s = 0 then s else TrimLeft (drop (leadingSpace s) s))"
  by pat_completeness auto
termination
proof (relation "measure length")
  fix s :: string
  assume "leadingSpace s \<noteq> 0"
  moreover have "leadingSpace s \<le> length s" by (rule leadingSpace_le)
  ultimately show "(drop (leadingSpace s) s, s) \<in> measure length" by simp
qed simp

function TrimRight :: "string \<Rightarrow> string" where
  "TrimRight s =
     (if trailingSpace s = 0 then s else TrimRight (take (length s - trailingSpace s) s))"
  by pat_completeness auto
termination
proof (relation "measure length")
  fix s :: string
  assume "trailingSpace s \<noteq> 0"
  moreover have "trailingSpace s \<le> length s" by (rule trailingSpace_le)
  ultimately show "(take (length s - trailingSpace s) s, s) \<in> measure length" by simp
qed simp

definition TrimSpace :: "string \<Rightarrow> string" where
  "TrimSpace s = TrimRight (TrimLeft s)"

section \<open>Readers and bufio.Scanner\<close>

text \<open>
  An \<^verbatim>\<open>io.Reader\<close> is the bytes it delivers and how it ends: \<open>r_err = None\<close> for the
  end of the data, and otherwise the error of the read that failed.
\<close>

datatype error = ErrNotExist | ErrTooLong | ErrOther string

record reader =
  r_data :: string
  r_err :: "error option"

text \<open>
  \<^verbatim>\<open>bufio.ScanLines\<close>: each line without its end-of-line marker, one trailing carriage
  return dropped; a last line without a newline is a token when it is not empty. The
  scanner's buffer holds \<^verbatim>\<open>MaxScanTokenSize\<close> bytes, and a line that does not fit with
  its newline ends the scan with \<^verbatim>\<open>bufio.ErrTooLong\<close>. (A last line of exactly that
  size without a newline is counted as too long as well, which is what the scanner does
  when the reader reports the end of the data in a read of its own.)
\<close>

definition dropCR :: "string \<Rightarrow> string" where
  "dropCR l = (if l \<noteq> [] \<and> last l = CHR 0x0D then butlast l else l)"

fun rawLines :: "string \<Rightarrow> string \<Rightarrow> string list" where
  "rawLines acc [] = (if acc = [] then [] else [rev acc])"
| "rawLines acc (c # cs) =
     (if c = CHR 0x0A then rev acc # rawLines [] cs else rawLines (c # acc) cs)"

definition ScanLines :: "string \<Rightarrow> string list" where
  "ScanLines data = map dropCR (rawLines [] data)"

definition MaxScanTokenSize :: int where
  "MaxScanTokenSize = 64 * 1024"

definition scannerErr :: "reader \<Rightarrow> error option" where
  "scannerErr r =
     (if list_ex (\<lambda>l. MaxScanTokenSize \<le> int (length l)) (rawLines [] (r_data r))
      then Some ErrTooLong else r_err r)"

section \<open>parseAutoProxy\<close>

text \<open>The inner \<^verbatim>\<open>switch\<close> on a host, written twice in the source.\<close>

definition reduceWildcard :: "string \<Rightarrow> string" where
  "reduceWildcard site =
     (if Contains site ''*.'' then last (Split site ''*.'')
      else if HasPrefix site ''*'' then last (SplitN2 site ''.'')
      else site)"

text \<open>The regular expression \<^verbatim>\<open>^[a-zA-Z0-9\.\_\-]+$\<close>.\<close>

definition hostChar :: "char \<Rightarrow> bool" where
  "hostChar c \<longleftrightarrow>
     (CHR ''a'' \<le> c \<and> c \<le> CHR ''z'') \<or> (CHR ''A'' \<le> c \<and> c \<le> CHR ''Z'') \<or>
     (CHR ''0'' \<le> c \<and> c \<le> CHR ''9'') \<or> c = CHR ''.'' \<or> c = CHR ''_'' \<or> c = CHR ''-''"

definition hostRegexp :: "string \<Rightarrow> bool" where
  "hostRegexp site \<longleftrightarrow> site \<noteq> [] \<and> list_all hostChar site"

text \<open>The lines the loop passes over with \<^verbatim>\<open>continue\<close>.\<close>

definition skippedLine :: "string \<Rightarrow> bool" where
  "skippedLine s \<longleftrightarrow>
     s = [] \<or> HasPrefix s ''['' \<or> HasPrefix s ''!'' \<or> HasPrefix s ''||!'' \<or> HasPrefix s ''@@''"

text \<open>
  The outer \<^verbatim>\<open>switch\<close>: the rule a trimmed line adds to \<^verbatim>\<open>sites\<close>, if any.
  \<open>urlHost\<close> stands for \<^verbatim>\<open>url.Parse\<close> of the standard library: the \<^verbatim>\<open>Host\<close> of the
  parsed URL, or \<open>None\<close> when it returns an error.
\<close>

definition ruleOf :: "(string \<Rightarrow> string option) \<Rightarrow> string \<Rightarrow> string option" where
  "ruleOf urlHost s =
     (if HasPrefix s ''||'' then Some (reduceWildcard (hd (Split (drop 2 s) ''/'')))
      else if HasPrefix s ''|http://'' then
        (case urlHost (drop 1 s) of Some host \<Rightarrow> Some (reduceWildcard host) | None \<Rightarrow> None)
      else if HasPrefix s ''.'' then
        (let site = hd (Split (hd (Split (drop 1 s) ''/'')) ''*'')
         in Some (if HasSuffix site ''.co'' then site @ ''m'' else site))
      else if \<not> ContainsAny s ''*'' then
        (let site = hd (Split s ''/'') in if hostRegexp site then Some site else None)
      else None)"

definition parseLine :: "(string \<Rightarrow> string option) \<Rightarrow> string \<Rightarrow> string option" where
  "parseLine urlHost l =
     (let s = TrimSpace l in if skippedLine s then None else ruleOf urlHost s)"

text \<open>
  The loop over the scanned lines. \<^verbatim>\<open>sites\<close> is a \<^verbatim>\<open>map[string]struct{}\<close>, that is,
  a set of strings.
\<close>

fun scanLoop :: "(string \<Rightarrow> string option) \<Rightarrow> string list \<Rightarrow> string set \<Rightarrow> string set" where
  "scanLoop urlHost [] sites = sites"
| "scanLoop urlHost (l # ls) sites =
     (case parseLine urlHost l of
        Some site \<Rightarrow> scanLoop urlHost ls (insert site sites)
      | None \<Rightarrow> scanLoop urlHost ls sites)"

text \<open>
  \<^verbatim>\<open>parseAutoProxy\<close> returns the keys of \<^verbatim>\<open>sites\<close> as a slice in the order of Go's
  map iteration, which is not fixed; the model returns the set of its elements.
\<close>

definition parseAutoProxy :: "(string \<Rightarrow> string option) \<Rightarrow> reader \<Rightarrow> error + string set" where
  "parseAutoProxy urlHost r =
     (case scannerErr r of
        Some e \<Rightarrow> Inl e
      | None \<Rightarrow> Inr (scanLoop urlHost (ScanLines (r_data r)) {}))"

section \<open>fixProxyPac\<close>

definition localhost2 :: string where
  "localhost2 = ''127.0.1.2''"

text \<open>
  The width of the first rune of a string, as \<^verbatim>\<open>utf8.DecodeRuneInString\<close> gives it:
  a well-formed UTF-8 sequence counts as one rune, any other byte as a rune of width one.
\<close>

definition contByte :: "char \<Rightarrow> bool" where
  "contByte c \<longleftrightarrow> CHR 0x80 \<le> c \<and> c \<le> CHR 0xBF"

definition secondByte :: "char \<Rightarrow> char \<Rightarrow> bool" where
  "secondByte c0 c1 \<longleftrightarrow>
     (if c0 = CHR 0xE0 then CHR 0xA0 \<le> c1 \<and> c1 \<le> CHR 0xBF
      else if c0 = CHR 0xED then CHR 0x80 \<le> c1 \<and> c1 \<le> CHR 0x9F
      else if c0 = CHR 0xF0 then CHR 0x90 \<le> c1 \<and> c1 \<le> CHR 0xBF
      else if c0 = CHR 0xF4 then CHR 0x80 \<le> c1 \<and> c1 \<le> CHR 0x8F
      else contByte c1)"

fun runeLen :: "string \<Rightarrow> nat" where
  "runeLen [] = 0"
| "runeLen (c0 # rest) =
     (if CHR 0xC2 \<le> c0 \<and> c0 \<le> CHR 0xDF then
        (case rest of c1 # _ \<Rightarrow> if contByte c1 then 2 else 1 | _ \<Rightarrow> 1)
      else if CHR 0xE0 \<le> c0 \<and> c0 \<le> CHR 0xEF then
        (case rest of
           c1 # c2 # _ \<Rightarrow> if secondByte c0 c1 \<and> contByte c2 then 3 else 1
         | _ \<Rightarrow> 1)
      else if CHR 0xF0 \<le> c0 \<and> c0 \<le> CHR 0xF4 then
        (case rest of
           c1 # c2 # c3 # _ \<Rightarrow> if secondByte c0 c1 \<and> contByte c2 \<and> contByte c3 then 4 else 1
         | _ \<Rightarrow> 1)
      else 1)"

text \<open>
  The regular expression is compiled from \<^verbatim>\<open>`PROXY ` + localhost2 + `:\d+`\<close>. Its pieces
  are matched from the left, each returning the rest of the input: a literal, the text of
  \<open>localhost2\<close> read as a pattern (its dots are the metacharacter \<^verbatim>\<open>.\<close>, any rune but a
  newline), and \<^verbatim>\<open>\d+\<close> (greedy, ASCII digits). The pattern has no alternative, so the
  leftmost-first match at a position is the one computed here.
\<close>

definition lit :: "string \<Rightarrow> string \<Rightarrow> string option" where
  "lit p s = (if prefix p s then Some (drop (length p) s) else None)"

definition anyChar :: "string \<Rightarrow> string option" where
  "anyChar s =
     (case s of [] \<Rightarrow> None | c # _ \<Rightarrow> if c = CHR 0x0A then None else Some (drop (runeLen s) s))"

definition isDigit :: "char \<Rightarrow> bool" where
  "isDigit c \<longleftrightarrow> CHR ''0'' \<le> c \<and> c \<le> CHR ''9''"

definition digits1 :: "string \<Rightarrow> string option" where
  "digits1 s =
     (case s of [] \<Rightarrow> None | c # _ \<Rightarrow> if isDigit c then Some (dropWhile isDigit s) else None)"

fun matchPattern :: "string \<Rightarrow> string \<Rightarrow> string option" where
  "matchPattern [] s = Some s"
| "matchPattern (p # ps) s =
     (if p = CHR ''.'' then Option.bind (anyChar s) (matchPattern ps)
      else Option.bind (lit [p] s) (matchPattern ps))"

definition matchPlaceholder :: "string \<Rightarrow> string option" where
  "matchPlaceholder s =
     Option.bind (lit ''PROXY '' s) (\<lambda>s1.
     Option.bind (matchPattern localhost2 s1) (\<lambda>s2.
     Option.bind (lit '':'' s2) digits1))"

lemma lit_length: "lit p s = Some r \<Longrightarrow> length r \<le> length s"
  by (auto simp: lit_def split: if_splits)

lemma anyChar_length: "anyChar s = Some r \<Longrightarrow> length r \<le> length s"
  by (auto simp: anyChar_def split: list.splits if_splits)

lemma digits1_length: "digits1 s = Some r \<Longrightarrow> length r < length s"
  by (auto simp: digits1_def length_dropWhile_le le_imp_less_Suc split: list.splits if_splits)

lemma matchPattern_length: "matchPattern p s = Some r \<Longrightarrow> length r \<le> length s"
proof (induction p arbitrary: s)
  case Nil
  then show ?case by simp
next
  case (Cons c p)
  show ?case
  proof (cases "c = CHR ''.''")
    case True
    with Cons.prems obtain s1 where a: "anyChar s = Some s1" and m: "matchPattern p s1 = Some r"
      by (auto simp: bind_eq_Some_conv)
    from Cons.IH [OF m] anyChar_length [OF a] show ?thesis by simp
  next
    case False
    with Cons.prems obtain s1 where a: "lit [c] s = Some s1" and m: "matchPattern p s1 = Some r"
      by (auto simp: bind_eq_Some_conv)
    from Cons.IH [OF m] lit_length [OF a] show ?thesis by simp
  qed
qed

lemma matchPlaceholder_length:
  assumes "matchPlaceholder s = Some r"
  shows "length r < length s"
proof -
  from assms obtain s1 s2 s3 where
    "lit ''PROXY '' s = Some s1" "matchPattern localhost2 s1 = Some s2"
    "lit '':'' s2 = Some s3" "digits1 s3 = Some r"
    by (auto simp: matchPlaceholder_def bind_eq_Some_conv)
  then show ?thesis
    using lit_length [of "''PROXY ''" s s1] matchPattern_length [of localhost2 s1 s2]
      lit_length [of "'':''" s2 s3] digits1_length [of s3 r]
    by simp
qed

text \<open>
  \<^verbatim>\<open>Regexp.ReplaceAllString\<close>: the matches are found from the left and do not overlap;
  the text between them is copied, and each match is replaced by what \<open>repl\<close> makes of
  the matched text. A match begins with the ASCII letter \<^verbatim>\<open>P\<close>, which is never inside a
  multi-byte rune, so stepping over unmatched input byte by byte copies the same bytes
  as stepping rune by rune.
\<close>

function replaceAll :: "(string \<Rightarrow> string) \<Rightarrow> string \<Rightarrow> string" where
  "replaceAll repl [] = []"
| "replaceAll repl (c # cs) =
     (case matchPlaceholder (c # cs) of
        Some rest \<Rightarrow> repl (take (length (c # cs) - length rest) (c # cs)) @ replaceAll repl rest
      | None \<Rightarrow> c # replaceAll repl cs)"
  by pat_completeness auto
termination
  by (relation "measure (\<lambda>(repl, s). length s)") (auto dest: matchPlaceholder_length)

text \<open>
  \<^verbatim>\<open>Regexp.expand\<close>: in the replacement text, \<^verbatim>\<open>$$\<close> is a dollar sign and \<^verbatim>\<open>$name\<close> or
  \<^verbatim>\<open>${name}\<close> refers to a submatch. The expression has no group of its own, so the name
  \<^verbatim>\<open>0\<close> gives the whole match and every other name the empty string; a dollar sign
  that no name follows stays as it is. A name is the longest run of runes that are
  letters, digits or the underscore. For an ASCII byte that is \<open>nameChar\<close>; for a rune of
  several bytes it is what \<^verbatim>\<open>unicode.IsLetter\<close> and \<^verbatim>\<open>unicode.IsDigit\<close> say, which is the
  parameter \<open>uni\<close> here (applied to the bytes of the rune); a byte that is not part of a
  well-formed rune ends the name.
\<close>

definition nameChar :: "char \<Rightarrow> bool" where
  "nameChar c \<longleftrightarrow>
     (CHR ''a'' \<le> c \<and> c \<le> CHR ''z'') \<or> (CHR ''A'' \<le> c \<and> c \<le> CHR ''Z'') \<or>
     (CHR ''0'' \<le> c \<and> c \<le> CHR ''9'') \<or> c = CHR ''_''"

function nameLength :: "(string \<Rightarrow> bool) \<Rightarrow> string \<Rightarrow> nat" where
  "nameLength uni [] = 0"
| "nameLength uni (c # cs) =
     (if c < CHR 0x80 then (if nameChar c then Suc (nameLength uni cs) else 0)
      else if 1 < runeLen (c # cs) \<and> uni (take (runeLen (c # cs)) (c # cs))
           then runeLen (c # cs) + nameLength uni (drop (runeLen (c # cs)) (c # cs))
           else 0)"
  by pat_completeness auto
termination
  by (relation "measure (\<lambda>(uni, s). length s)") auto

definition extractName :: "(string \<Rightarrow> bool) \<Rightarrow> string \<Rightarrow> (string \<times> string) option" where
  "extractName uni str =
     (case str of
        [] \<Rightarrow> None
      | c # cs \<Rightarrow>
          (let brace = (c = CHR ''{'');
               str' = (if brace then cs else str);
               name = take (nameLength uni str') str';
               rest = drop (nameLength uni str') str'
           in if name = [] then None
              else if brace then
                (case rest of [] \<Rightarrow> None | r # rs \<Rightarrow> if r = CHR ''}'' then Some (name, rs) else None)
              else Some (name, rest)))"

lemma extractName_length:
  assumes "extractName uni str = Some (name, rest)"
  shows "length rest \<le> length str"
proof (cases str)
  case Nil
  with assms show ?thesis by (simp add: extractName_def)
next
  case (Cons c cs)
  show ?thesis
  proof (cases "c = CHR ''{''")
    case True
    with assms Cons obtain r where "drop (nameLength uni cs) cs = r # rest"
      by (auto simp: extractName_def Let_def split: list.splits if_splits)
    then have "length (drop (nameLength uni cs) cs) = Suc (length rest)" by simp
    with Cons show ?thesis by simp
  next
    case False
    with assms Cons have "rest = drop (nameLength uni str) str"
      by (auto simp: extractName_def Let_def split: if_splits)
    then show ?thesis by simp
  qed
qed

function expand :: "(string \<Rightarrow> bool) \<Rightarrow> string \<Rightarrow> string \<Rightarrow> string" where
  "expand uni [] m = []"
| "expand uni (c # cs) m =
     (if c \<noteq> CHR ''$'' then c # expand uni cs m
      else if HasPrefix cs ''$'' then CHR ''$'' # expand uni (drop 1 cs) m
      else (case extractName uni cs of
              None \<Rightarrow> CHR ''$'' # expand uni cs m
            | Some (name, rest) \<Rightarrow> (if name = ''0'' then m else []) @ expand uni rest m))"
  by pat_completeness auto
termination
  by (relation "measure (\<lambda>(uni, t, m). length t)") (auto dest: extractName_length)

section \<open>Requests, responses, the store and the cache\<close>

text \<open>
  Of \<^verbatim>\<open>http.Request\<close> the handler reads \<^verbatim>\<open>Host\<close> and \<^verbatim>\<open>URL.Path\<close>. A
  \<^verbatim>\<open>*http.Response\<close> that may be \<^verbatim>\<open>nil\<close> is a \<^typ>\<open>'a option\<close>, and so is its
  \<^verbatim>\<open>Body\<close>. Instants and durations are counted in nanoseconds.
\<close>

type_synonym time = int

type_synonym header = "string \<rightharpoonup> string"

record request =
  Host :: string
  Path :: string

record response =
  StatusCode :: int
  Header :: header
  Request :: "request option"
  Close :: bool
  ContentLength :: int
  Body :: "reader option"

type_synonym result = "response option \<times> error option"

definition IsNotExist :: "error option \<Rightarrow> bool" where
  "IsNotExist err \<longleftrightarrow> err = Some ErrNotExist"

definition HeaderGet :: "header \<Rightarrow> string \<Rightarrow> string" where
  "HeaderGet h k = (case h k of Some v \<Rightarrow> v | None \<Rightarrow> [])"

definition NewReader :: "string \<Rightarrow> reader" where
  "NewReader s = \<lparr>r_data = s, r_err = None\<rparr>"

definition ReadAll :: "reader \<Rightarrow> error + string" where
  "ReadAll r = (case r_err r of Some e \<Rightarrow> Inl e | None \<Rightarrow> Inr (r_data r))"

text \<open>
  The backing store is an interface of package \<^verbatim>\<open>storage\<close>. It is a parameter of the
  model: any four operations on any type of store states.
\<close>

record 's StoreOps =
  StoreGet :: "string \<Rightarrow> 's \<Rightarrow> result \<times> 's"
  StoreHead :: "string \<Rightarrow> 's \<Rightarrow> result \<times> 's"
  StorePut :: "string \<Rightarrow> header \<Rightarrow> reader \<Rightarrow> 's \<Rightarrow> result \<times> 's"
  StoreDelete :: "string \<Rightarrow> 's \<Rightarrow> result \<times> 's"

text \<open>
  \<^verbatim>\<open>ProxyPacCache\<close> is an \<^verbatim>\<open>lrucache\<close>: a value is stored with the instant it expires
  at. \<^verbatim>\<open>Get\<close>, which the handler calls, returns the value stored for a key whether or
  not that instant has passed (the cache's \<^verbatim>\<open>GetNotStale\<close> is the lookup that checks
  it). The handler stores strings only. The capacity of the cache, and with it the
  eviction of entries, is not modelled.
\<close>

type_synonym cache = "string \<rightharpoonup> string \<times> time"

definition CacheGet :: "cache \<Rightarrow> string \<Rightarrow> string option" where
  "CacheGet c key = (case c key of Some (v, expire) \<Rightarrow> Some v | None \<Rightarrow> None)"

definition CacheSet :: "cache \<Rightarrow> string \<Rightarrow> string \<Rightarrow> time \<Rightarrow> cache" where
  "CacheSet c key v expire = c(key \<mapsto> (v, expire))"

definition CacheClear :: "cache \<Rightarrow> cache" where
  "CacheClear c = Map.empty"

definition Minute :: int where
  "Minute = 60 * 1000000000"

text \<open>
  \<^verbatim>\<open>Filter\<close> and \<^verbatim>\<open>GFWListDomains\<close> are declared in another file of the package;
  the records have the fields that \<^verbatim>\<open>autoproxy_pac.go\<close> uses, with the types of their
  uses. \<open>Store\<close> is the state of the backing store. \<open>history\<close> is not a field of
  the source: it records the updater's effects in the order they happen.
\<close>

record GFWListConfig =
  Filename :: string
  URL :: string
  Encoding :: string
  Expiry :: int
  Duration :: int

datatype event =
  StoreHeadEv | RoundTripEv | StoreDeleteEv | StorePutEv string | LockEv
  | UpdateEv "string list" | UnlockEv | CacheClearEv | FatalEv

record 's Filter =
  GFWListEnabled :: bool
  GFWList :: GFWListConfig
  GFWListDomains :: GFWListDomains
  ProxyPacCache :: cache
  Store :: 's
  history :: "event list"

datatype panic = NilDereference | SliceOutOfRange

datatype 'a outcome = Done 'a | Panic panic

section \<open>ProxyPacRoundTrip\<close>

definition userPac :: "string \<Rightarrow> string" where
  \<open>userPac port = concat
     [''// User-defined FindProxyForURL\<newline>'',
      ''var whiteList = new Array(\<newline>'',
      [CHR 0x09] @ ''// "ruanyifeng.com",\<newline>'',
      '');\<newline>'',
      ''function FindProxyForURL(url, host) {\<newline>'',
      ''    if (isPlainHostName(host) ||\<newline>'',
      ''        isInNet(host, "10.0.0.0", "255.0.0.0") ||\<newline>'',
      ''        isInNet(host, "172.16.0.0", "255.240.0.0") ||\<newline>'',
      ''        isInNet(host, "169.254.0.0", "255.255.0.0") ||\<newline>'',
      ''        isInNet(host, "192.168.0.0", "255.255.0.0") ||\<newline>'',
      ''        isInNet(host, "127.0.0.0", "255.255.255.0") ||\<newline>'',
      ''        shExpMatch(host, "*.local") ||\<newline>'',
      ''        shExpMatch(host, 'localhost.*')) {\<newline>'',
      ''        return 'DIRECT';\<newline>'',
      ''    }\<newline>'',
      ''\<newline>'',
      ''    if (shExpMatch(host, '*.google*.*')) {\<newline>'',
      ''        return 'PROXY '',
      localhost2,
      '':'',
      port,
      ''';\<newline>'',
      ''    }\<newline>'',
      ''\<newline>'',
      ''    return 'DIRECT';\<newline>'',
      ''}\<newline>'']\<close>

definition wrapperPac :: string where
  \<open>wrapperPac = concat
     [''\<newline>'',
      ''for (i in whiteList) {\<newline>'',
      [CHR 0x09] @ ''delete sites[whiteList[i]];\<newline>'',
      ''}\<newline>'',
      ''function FindProxyForURL(url, host) {\<newline>'',
      ''    if ((p = MyFindProxyForURL(url, host)) != "DIRECT") {\<newline>'',
      ''        return p\<newline>'',
      ''    }\<newline>'',
      ''\<newline>'',
      ''    var lastPos;\<newline>'',
      ''    do {\<newline>'',
      ''        if (sites.hasOwnProperty(host)) {\<newline>'',
      ''            return 'PROXY '',
      localhost2,
      '':8087';\<newline>'',
      ''        }\<newline>'',
      ''        lastPos = host.indexOf('.') + 1;\<newline>'',
      ''        host = host.slice(lastPos);\<newline>'',
      ''    } while (lastPos >= 1);\<newline>'',
      ''    return 'DIRECT';\<newline>'',
      ''}'']\<close>

text \<open>\<^verbatim>\<open>strings.Replace(s, old, new, 1)\<close> for a non-empty \<open>old\<close>.\<close>

fun Replace1 :: "string \<Rightarrow> string \<Rightarrow> string \<Rightarrow> string" where
  "Replace1 [] old new = []"
| "Replace1 (c # cs) old new =
     (if prefix old (c # cs) then new @ drop (length old) (c # cs) else c # Replace1 cs old new)"

definition fixProxyPac :: "(string \<Rightarrow> bool) \<Rightarrow> string \<Rightarrow> request \<Rightarrow> string" where
  "fixProxyPac uni s req = replaceAll (expand uni (''PROXY '' @ Host req)) s"

definition okResponse :: "request \<Rightarrow> string \<Rightarrow> response" where
  "okResponse req s =
     \<lparr>StatusCode = 200, Header = Map.empty, Request = Some req, Close = True,
      ContentLength = int (length s), Body = Some (NewReader s)\<rparr>"

text \<open>
  Lines 154 to 189: the first read of the store. The default script is written when the
  error says the file does not exist or the status of the response is 404; the result is
  the state of the store, or the error the handler returns.
\<close>

definition firstRead :: "'s StoreOps \<Rightarrow> string \<Rightarrow> string \<Rightarrow> 's \<Rightarrow> (error option \<times> 's) outcome" where
  "firstRead ops filename port st =
     (case StoreGet ops filename st of ((resp, err), st1) \<Rightarrow>
        if IsNotExist err then
          (case StorePut ops filename Map.empty (NewReader (userPac port)) st1 of (_, st2) \<Rightarrow>
             (case resp of None \<Rightarrow> Panic NilDereference | Some _ \<Rightarrow> Done (err, st2)))
        else
          (case resp of
             None \<Rightarrow> Panic NilDereference
           | Some r \<Rightarrow>
               if StatusCode r = 404 then
                 (case StorePut ops filename Map.empty (NewReader (userPac port)) st1 of
                    (_, st2) \<Rightarrow> Done (err, st2))
               else Done (err, st1)))"

text \<open>
  Lines 191 to 199: the second read, whose bytes start the buffer. A failed read of the
  store or of the body leaves the buffer empty.
\<close>

definition readTemplate :: "'s StoreOps \<Rightarrow> bool \<Rightarrow> string \<Rightarrow> 's \<Rightarrow> (string \<times> 's) outcome" where
  "readTemplate ops enabled filename st =
     (case StoreGet ops filename st of ((resp, err), st1) \<Rightarrow>
        (case err of
           Some _ \<Rightarrow> Done ([], st1)
         | None \<Rightarrow>
             (case resp of
                None \<Rightarrow> Panic NilDereference
              | Some r \<Rightarrow>
                  (case Body r of
                     None \<Rightarrow> Panic NilDereference
                   | Some body \<Rightarrow>
                       (case ReadAll body of
                          Inl _ \<Rightarrow> Done ([], st1)
                        | Inr b \<Rightarrow>
                            Done (if enabled
                                  then Replace1 b ''function FindProxyForURL(''
                                         ''function MyFindProxyForURL(''
                                  else b, st1))))))"

text \<open>Lines 203 to 209: the \<^verbatim>\<open>sites\<close> object literal, written to the buffer.\<close>

definition writeSites :: "string \<Rightarrow> string list \<Rightarrow> string" where
  \<open>writeSites buf domains =
     (let buf1 = buf @ ''\<newline>var sites = {\<newline>'';
          buf2 = foldl (\<lambda>b site. b @ ''"'' @ site @ ''":1,\<newline>'') buf1 domains;
          buf3 = buf2 @ ''"google.com":1\<newline>''
      in buf3 @ ''}\<newline>'')\<close>

text \<open>
  The handler. \<open>uni\<close> is the parameter of \<open>expand\<close>, and \<open>SplitHostPort\<close> stands for
  \<^verbatim>\<open>net.SplitHostPort\<close>: the port of a host, or \<open>None\<close> for its error. \<open>now\<close> is the
  reading of the clock when the rendered script is stored in the cache. The result is
  the filter after the call with the error or the response returned, or a panic.
\<close>

definition ProxyPacRoundTrip ::
  "(string \<Rightarrow> bool) \<Rightarrow> (string \<Rightarrow> string option) \<Rightarrow> 's StoreOps \<Rightarrow> time \<Rightarrow> 's Filter \<Rightarrow> request
   \<Rightarrow> ('s Filter \<times> (error + response)) outcome" where
  "ProxyPacRoundTrip uni SplitHostPort ops now f req =
     (let port = (case SplitHostPort (Host req) of Some p \<Rightarrow> p | None \<Rightarrow> ''80'') in
      case CacheGet (ProxyPacCache f) (Path req) of
        Some s \<Rightarrow> Done (f, Inr (okResponse req (fixProxyPac uni s req)))
      | None \<Rightarrow>
          (case Path req of
             [] \<Rightarrow> Panic SliceOutOfRange
           | _ # filename \<Rightarrow>
               (case firstRead ops filename port (Store f) of
                  Panic p \<Rightarrow> Panic p
                | Done (Some e, st) \<Rightarrow> Done (f\<lparr>Store := st\<rparr>, Inl e)
                | Done (None, st) \<Rightarrow>
                    (case readTemplate ops (GFWListEnabled f) filename st of
                       Panic p \<Rightarrow> Panic p
                     | Done (b, st') \<Rightarrow>
                         (let s = (if GFWListEnabled f
                                   then writeSites b (Domains (GFWListDomains f)) @ wrapperPac
                                   else b)
                          in Done (f\<lparr>Store := st',
                                     ProxyPacCache :=
                                       CacheSet (ProxyPacCache f) (Path req) s (now + 15 * Minute)\<rparr>,
                                   Inr (okResponse req (fixProxyPac uni s req))))))))"

section \<open>legallyParseGFWList and pacUpdater\<close>

text \<open>\<^verbatim>\<open>sort.Strings\<close> orders the rules by their bytes.\<close>

definition legallyParseGFWList ::
  "(string \<Rightarrow> string option) \<Rightarrow> 's StoreOps \<Rightarrow> string \<Rightarrow> 's
   \<Rightarrow> ((error + string list) \<times> 's) outcome" where
  "legallyParseGFWList urlHost ops filename st =
     (case StoreGet ops filename st of ((resp, err), st1) \<Rightarrow>
        (case err of
           Some e \<Rightarrow> Done (Inl e, st1)
         | None \<Rightarrow>
             (case resp of
                None \<Rightarrow> Panic NilDereference
              | Some r \<Rightarrow>
                  (case Body r of
                     None \<Rightarrow> Panic NilDereference
                   | Some body \<Rightarrow>
                       (case parseAutoProxy urlHost body of
                          Inl e \<Rightarrow> Done (Inl e, st1)
                        | Inr sites \<Rightarrow> Done (Inr (sorted_list_of_set sites), st1))))))"

text \<open>
  \<^verbatim>\<open>Time.Sub\<close>: the difference of two instants as a \<^verbatim>\<open>Duration\<close>, a 64-bit count of
  nanoseconds; a difference out of its range becomes the nearest bound.
\<close>

definition minDuration :: int where
  "minDuration = - (2 ^ 63)"

definition maxDuration :: int where
  "maxDuration = 2 ^ 63 - 1"

definition Sub :: "time \<Rightarrow> time \<Rightarrow> int" where
  "Sub t u =
     (let d = t - u
      in if d < minDuration then minDuration else if maxDuration < d then maxDuration else d)"

text \<open>
  What one pass of the loop meets outside the filter: the clock, \<^verbatim>\<open>time.Parse\<close> with
  the store's date format, the error of \<^verbatim>\<open>http.NewRequest\<close>, the answer of the
  transport, the base64 decoder and \<^verbatim>\<open>url.Parse\<close>.
\<close>

record updaterEnv =
  timeNow :: time
  timeParse :: "string \<Rightarrow> time option"
  newRequest :: "error option"
  roundTrip :: result
  base64Decode :: "string \<Rightarrow> error + string"
  urlParseHost :: "string \<Rightarrow> string option"

text \<open>The effects on the filter, each entered in the history.\<close>

definition emit :: "event \<Rightarrow> 's Filter \<Rightarrow> 's Filter" where
  "emit ev f = f\<lparr>history := history f @ [ev]\<rparr>"

definition Lock :: "'s Filter \<Rightarrow> 's Filter" where
  "Lock f = emit LockEv (f\<lparr>GFWListDomains := (GFWListDomains f)\<lparr>mu := True\<rparr>\<rparr>)"

definition Unlock :: "'s Filter \<Rightarrow> 's Filter" where
  "Unlock f = emit UnlockEv (f\<lparr>GFWListDomains := (GFWListDomains f)\<lparr>mu := False\<rparr>\<rparr>)"

definition setDomains :: "string list \<Rightarrow> 's Filter \<Rightarrow> 's Filter" where
  "setDomains ds f = emit (UpdateEv ds) (f\<lparr>GFWListDomains := (GFWListDomains f)\<lparr>Domains := ds\<rparr>\<rparr>)"

definition clearCache :: "'s Filter \<Rightarrow> 's Filter" where
  "clearCache f = emit CacheClearEv (f\<lparr>ProxyPacCache := CacheClear (ProxyPacCache f)\<rparr>)"

text \<open>
  How a pass of the loop ends: at the \<^verbatim>\<open>continue\<close> of the staleness check, at a
  \<^verbatim>\<open>continue\<close> after a warning, at the end of the body, in \<^verbatim>\<open>glog.Fatalf\<close> (which
  logs and ends the process), or in a panic.
\<close>

datatype ending = NotModified | Warned | Updated | Fatal | Crashed panic

text \<open>Lines 258 to 279: the check of the local copy.\<close>

definition stageCheck ::
  "'s StoreOps \<Rightarrow> updaterEnv \<Rightarrow> 's Filter \<Rightarrow> (ending \<times> 's Filter) + 's Filter" where
  "stageCheck ops env f =
     (case StoreHead ops (Filename (GFWList f)) (Store f) of ((resp, err), st) \<Rightarrow>
        (let f1 = emit StoreHeadEv (f\<lparr>Store := st\<rparr>) in
         case err of
           Some _ \<Rightarrow> Inl (Warned, f1)
         | None \<Rightarrow>
             (case resp of
                None \<Rightarrow> Inl (Crashed NilDereference, f1)
              | Some r \<Rightarrow>
                  (let lm = HeaderGet (Header r) ''Last-Modified'' in
                   if lm = [] then Inl (Warned, f1)
                   else (case timeParse env lm of
                           None \<Rightarrow> Inl (Warned, f1)
                         | Some modTime \<Rightarrow>
                             if Sub (timeNow env) modTime < Expiry (GFWList f)
                             then Inl (NotModified, f1)
                             else Inr f1)))))"

text \<open>Lines 284 to 311: the download, decoded as the configuration says.\<close>

definition readBody :: "updaterEnv \<Rightarrow> string \<Rightarrow> reader \<Rightarrow> error + string" where
  "readBody env encoding body =
     (if encoding = ''base64'' then
        (case base64Decode env (r_data body) of
           Inl e \<Rightarrow> Inl e
         | Inr d \<Rightarrow> (case r_err body of Some e \<Rightarrow> Inl e | None \<Rightarrow> Inr d))
      else ReadAll body)"

definition stageDownload ::
  "updaterEnv \<Rightarrow> 's Filter \<Rightarrow> (ending \<times> 's Filter) + (string \<times> 's Filter)" where
  "stageDownload env f =
     (case newRequest env of
        Some _ \<Rightarrow> Inl (Warned, f)
      | None \<Rightarrow>
          (let f1 = emit RoundTripEv f in
           case roundTrip env of
             (_, Some _) \<Rightarrow> Inl (Warned, f1)
           | (None, None) \<Rightarrow> Inl (Crashed NilDereference, f1)
           | (Some resp, None) \<Rightarrow>
               (case Body resp of
                  None \<Rightarrow> Inl (Crashed NilDereference, f1)
                | Some body \<Rightarrow>
                    (case readBody env (Encoding (GFWList f)) body of
                       Inl _ \<Rightarrow> Inl (Warned, f1)
                     | Inr data \<Rightarrow> Inr (data, f1)))))"

text \<open>Lines 313 to 323: the old copy is deleted and the new bytes are stored.\<close>

definition stagePersist ::
  "'s StoreOps \<Rightarrow> string \<Rightarrow> 's Filter \<Rightarrow> (ending \<times> 's Filter) + 's Filter" where
  "stagePersist ops data f =
     (case StoreDelete ops (Filename (GFWList f)) (Store f) of ((_, err), st) \<Rightarrow>
        (let f1 = emit StoreDeleteEv (f\<lparr>Store := st\<rparr>) in
         case err of
           Some _ \<Rightarrow> Inl (Warned, f1)
         | None \<Rightarrow>
             (case StorePut ops (Filename (GFWList f)) Map.empty (NewReader data) st of
                ((_, err2), st2) \<Rightarrow>
                  (let f2 = emit (StorePutEv data) (f1\<lparr>Store := st2\<rparr>) in
                   case err2 of Some _ \<Rightarrow> Inl (Warned, f2) | None \<Rightarrow> Inr f2))))"

text \<open>
  Lines 325 to 334. The result of \<^verbatim>\<open>legallyParseGFWList\<close> is assigned to \<^verbatim>\<open>Domains\<close>
  before its error is looked at, so a failed parse stores \<^verbatim>\<open>nil\<close> there.
\<close>

definition stagePublish :: "'s StoreOps \<Rightarrow> updaterEnv \<Rightarrow> 's Filter \<Rightarrow> ending \<times> 's Filter" where
  "stagePublish ops env f =
     (let f1 = Lock f in
      case legallyParseGFWList (urlParseHost env) ops (Filename (GFWList f)) (Store f1) of
        Panic p \<Rightarrow> (Crashed p, f1)
      | Done (Inl e, st) \<Rightarrow> (Fatal, emit FatalEv (setDomains [] (f1\<lparr>Store := st\<rparr>)))
      | Done (Inr sites, st) \<Rightarrow>
          (Updated, clearCache (Unlock (setDomains sites (f1\<lparr>Store := st\<rparr>)))))"

text \<open>One pass of the loop of \<^verbatim>\<open>pacUpdater\<close>, from the tick on.\<close>

definition pacUpdaterCycle :: "'s StoreOps \<Rightarrow> updaterEnv \<Rightarrow> 's Filter \<Rightarrow> ending \<times> 's Filter" where
  "pacUpdaterCycle ops env f =
     (case stageCheck ops env f of
        Inl r \<Rightarrow> r
      | Inr f1 \<Rightarrow>
          (case stageDownload env f1 of
             Inl r \<Rightarrow> r
           | Inr (data, f2) \<Rightarrow>
               (case stagePersist ops data f2 of
                  Inl r \<Rightarrow> r
                | Inr f3 \<Rightarrow> stagePublish ops env f3)))"

text \<open>
  The loop itself never ends; it is run here over the ticks of a finite list, each with
  what the pass meets. The process goes on after a pass that ends in a \<^verbatim>\<open>continue\<close>
  or at the end of the body, and not after \<^verbatim>\<open>glog.Fatalf\<close> or a panic.
\<close>

datatype process = Running | Exited | Panicked panic

fun pacUpdater :: "'s StoreOps \<Rightarrow> updaterEnv list \<Rightarrow> 's Filter \<Rightarrow> process \<times> 's Filter" where
  "pacUpdater ops [] f = (Running, f)"
| "pacUpdater ops (env # envs) f =
     (case pacUpdaterCycle ops env f of
        (Fatal, f') \<Rightarrow> (Exited, f')
      | (Crashed p, f') \<Rightarrow> (Panicked p, f')
      | (_, f') \<Rightarrow> pacUpdater ops envs f')"

section \<open>Reading the generated literal\<close>

text \<open>
  What a reader of the script finds in the \<^verbatim>\<open>sites\<close> literal: the keys of the lines of
  the form \<^verbatim>\<open>"key":1\<close>, with or without a comma after them.
\<close>

definition entryKey :: "string \<Rightarrow> string option" where
  \<open>entryKey l =
     (case l of
        [] \<Rightarrow> None
      | c # cs \<Rightarrow>
          if c \<noteq> CHR 0x22 then None
          else if suffix ''":1,'' cs then Some (take (length cs - 4) cs)
          else if suffix ''":1'' cs then Some (take (length cs - 3) cs)
          else None)\<close>

definition siteEntries :: "string \<Rightarrow> string list" where
  "siteEntries script = List.map_filter entryKey (rawLines [] script)"

section \<open>A store, a filter and an environment for examples\<close>

text \<open>
  A store that keeps its files in a map and answers a missing file with status 404, and
  one whose reads fail without a response.
\<close>

definition fileResponse :: "int \<Rightarrow> string \<Rightarrow> response" where
  "fileResponse code content =
     \<lparr>StatusCode = code, Header = [''Last-Modified'' \<mapsto> ''Mon, 02 Jan 2006 15:04:05 GMT''],
      Request = None, Close = False, ContentLength = int (length content),
      Body = Some (NewReader content)\<rparr>"

definition fileStore :: "(string \<rightharpoonup> string) StoreOps" where
  "fileStore =
     \<lparr>StoreGet = (\<lambda>name st.
        (case st name of
           Some content \<Rightarrow> ((Some (fileResponse 200 content), None), st)
         | None \<Rightarrow> ((Some (fileResponse 404 []), None), st))),
      StoreHead = (\<lambda>name st.
        (case st name of
           Some content \<Rightarrow> ((Some (fileResponse 200 []), None), st)
         | None \<Rightarrow> ((Some (fileResponse 404 []), None), st))),
      StorePut = (\<lambda>name h r st. ((Some (fileResponse 200 []), None), st(name \<mapsto> r_data r))),
      StoreDelete = (\<lambda>name st. ((Some (fileResponse 200 []), None), st(name := None)))\<rparr>"

definition brokenStore :: "(string \<rightharpoonup> string) StoreOps" where
  "brokenStore =
     fileStore\<lparr>StoreGet := (\<lambda>name st. ((None, Some (ErrOther ''timeout'')), st))\<rparr>"

definition exampleFilter :: "(string \<rightharpoonup> string) Filter" where
  "exampleFilter =
     \<lparr>GFWListEnabled = True,
      GFWList = \<lparr>Filename = ''gfwlist.txt'', URL = ''https://example.org/gfwlist.txt'',
                 Encoding = ''identity'', Expiry = 3600 * 1000000000,
                 Duration = 60 * 1000000000\<rparr>,
      GFWListDomains = \<lparr>mu = False, Domains = [''example.com'']\<rparr>,
      ProxyPacCache = [''/proxy.pac'' \<mapsto> (''return 'PROXY 127.0.1.2:8087';'', 900)],
      Store = [''gfwlist.txt'' \<mapsto> ''||example.com''],
      history = []\<rparr>"

text \<open>
  A filter with nothing in the cache, no domain list, and a short script in the store.
\<close>

definition missFilter :: "(string \<rightharpoonup> string) Filter" where
  "missFilter =
     \<lparr>GFWListEnabled = False,
      GFWList = \<lparr>Filename = ''gfwlist.txt'', URL = ''https://example.org/gfwlist.txt'',
                 Encoding = ''identity'', Expiry = 3600 * 1000000000,
                 Duration = 60 * 1000000000\<rparr>,
      GFWListDomains = \<lparr>mu = False, Domains = []\<rparr>,
      ProxyPacCache = Map.empty,
      Store = [''proxy.pac'' \<mapsto> ''return 'PROXY 127.0.1.2:8087';''],
      history = []\<rparr>"

text \<open>
  The local copy was modified at instant 0; the remote list has two lines.
\<close>

definition exampleEnv :: "time \<Rightarrow> updaterEnv" where
  "exampleEnv t =
     \<lparr>timeNow = t,
      timeParse = (\<lambda>s. if s = ''Mon, 02 Jan 2006 15:04:05 GMT'' then Some 0 else None),
      newRequest = None,
      roundTrip = (Some (fileResponse 200 (''||foo.org/x'' @ [CHR 0x0A] @ ''.bar.co'')), None),
      base64Decode = (\<lambda>s. Inr s),
      urlParseHost = (\<lambda>s. None)\<rparr>"

section \<open>Properties of the match predicate\<close>

lemma match_loop_iff:
  "match_loop d ds \<longleftrightarrow> (\<exists>r \<in> set ds. d = r \<or> suffix (''.'' @ r) d)"
  by (induction ds) (auto simp: HasSuffix_def)

text \<open>
  Claim C1. The predicate is false for the empty domain. For any other domain \<open>d\<close> it
  holds exactly when \<open>d\<close> is one of the rules or ends with a dot followed by one of the
  rules.
\<close>

theorem GFWListDomainsMatch_iff:
  "GFWListDomainsMatch d cd \<longleftrightarrow>
     d \<noteq> [] \<and> (\<exists>r \<in> set (Domains cd). d = r \<or> suffix (''.'' @ r) d)"
  by (simp add: GFWListDomainsMatch_def match_loop_iff)

theorem GFWListDomainsMatch_iff_witness:
  "GFWListDomainsMatch ''www.foo.com'' \<lparr>mu = False, Domains = [''bar.org'', ''foo.com'']\<rparr> \<and>
   GFWListDomainsMatch ''foo.com'' \<lparr>mu = False, Domains = [''bar.org'', ''foo.com'']\<rparr> \<and>
   \<not> GFWListDomainsMatch ''xfoo.com'' \<lparr>mu = False, Domains = [''bar.org'', ''foo.com'']\<rparr> \<and>
   \<not> GFWListDomainsMatch [] \<lparr>mu = False, Domains = [''bar.org'', ''foo.com'']\<rparr>"
  using GFWListDomainsMatch_iff [of "''www.foo.com''" "\<lparr>mu = False, Domains = [''bar.org'', ''foo.com'']\<rparr>"]
    GFWListDomainsMatch_iff [of "''foo.com''" "\<lparr>mu = False, Domains = [''bar.org'', ''foo.com'']\<rparr>"]
    GFWListDomainsMatch_iff [of "''xfoo.com''" "\<lparr>mu = False, Domains = [''bar.org'', ''foo.com'']\<rparr>"]
    GFWListDomainsMatch_iff [of "[]" "\<lparr>mu = False, Domains = [''bar.org'', ''foo.com'']\<rparr>"]
  by (simp add: suffix_to_prefix)

text \<open>
  The empty domain is not matched even when the empty string is one of the rules (the
  parser produces it from the line \<^verbatim>\<open>||\<close>).
\<close>

lemma GFWListDomainsMatch_empty_rule:
  "\<not> GFWListDomainsMatch [] \<lparr>mu = False, Domains = [[]]\<rparr>"
  by (simp add: GFWListDomainsMatch_def)

section \<open>Properties of the parser\<close>

declare TrimLeft.simps [simp del] TrimRight.simps [simp del]

lemma Split_not_Nil: "Split s sep \<noteq> []"
  by (cases s) (auto split: list.splits)

lemma hd_Split_slash: "hd (Split s ''/'') = takeWhile (\<lambda>c. c \<noteq> CHR ''/'') s"
proof (induction s)
  case Nil
  then show ?case by simp
next
  case (Cons c cs)
  then show ?case
    using Split_not_Nil [of cs "''/''"] by (auto split: list.splits)
qed

lemma scanLoop_foo_bar: "scanLoop urlHost (ScanLines ''||*.foo.bar/path'') {} = {''foo.bar''}"
  by code_simp

lemma scannerErr_foo_bar: "scannerErr \<lparr>r_data = ''||*.foo.bar/path'', r_err = None\<rparr> = None"
  by (simp add: scannerErr_def MaxScanTokenSize_def)

text \<open>
  Claim C4, as the code has it. The line \<^verbatim>\<open>||*.foo.bar/path\<close> loses its first two
  characters and its path, and of \<^verbatim>\<open>*.foo.bar\<close> the part after the last \<^verbatim>\<open>*.\<close> is
  kept: the rule is \<^verbatim>\<open>foo.bar\<close>.
\<close>

theorem parseAutoProxy_foo_bar:
  "parseAutoProxy urlHost \<lparr>r_data = ''||*.foo.bar/path'', r_err = None\<rparr> = Inr {''foo.bar''}"
  by (simp add: parseAutoProxy_def scannerErr_foo_bar scanLoop_foo_bar)

text \<open>Claim C4 as stated fails: the rule set of that line is not \<^verbatim>\<open>bar\<close> alone.\<close>

theorem parseAutoProxy_foo_bar_counterexample:
  "parseAutoProxy (\<lambda>s. None) \<lparr>r_data = ''||*.foo.bar/path'', r_err = None\<rparr> \<noteq> Inr {''bar''}"
  by (simp add: parseAutoProxy_def scannerErr_foo_bar scanLoop_foo_bar)

lemma parseLine_example_com: "parseLine urlHost ''||*.example.com/x'' = Some ''example.com''"
  by code_simp

lemma parseLine_example_co: "parseLine urlHost ''.example.co/y'' = Some ''example.com''"
  by code_simp

lemma parseLine_example_net: "parseLine urlHost ''example.net'' = Some ''example.net''"
  by code_simp

lemma parseLine_exception: "parseLine urlHost ''@@||allowed.com'' = None"
  by code_simp

lemma parseLine_blank: "parseLine urlHost [] = None"
  by code_simp

lemma parseLine_bare_host:
  assumes "\<not> HasPrefix (TrimSpace l) ''||''" "\<not> HasPrefix (TrimSpace l) ''|http://''"
    "\<not> HasPrefix (TrimSpace l) ''.''"
  shows "parseLine urlHost l =
    (let s = TrimSpace l; site = takeWhile (\<lambda>c. c \<noteq> CHR ''/'') s
     in if \<not> skippedLine s \<and> CHR ''*'' \<notin> set s \<and> site \<noteq> [] \<and> list_all hostChar site
        then Some site else None)"
  using assms
  by (simp add: parseLine_def Let_def ruleOf_def hd_Split_slash hostRegexp_def ContainsAny_def
      list_ex_iff)

text \<open>
  Claim C5, as the code has it. The five lines give what the claim says. A line of no
  other shape is tested on its part before the first slash only: it adds no rule when
  that part is empty or has a character outside \<^verbatim>\<open>[A-Za-z0-9._-]\<close>, or when the line
  has a \<^verbatim>\<open>*\<close>, and adds that part otherwise, whatever follows the slash.
\<close>

theorem parseLine_cases:
  "parseLine urlHost ''||*.example.com/x'' = Some ''example.com'' \<and>
   parseLine urlHost ''.example.co/y'' = Some ''example.com'' \<and>
   parseLine urlHost ''example.net'' = Some ''example.net'' \<and>
   parseLine urlHost ''@@||allowed.com'' = None \<and>
   parseLine urlHost [] = None \<and>
   (\<forall>l. \<not> HasPrefix (TrimSpace l) ''||'' \<and> \<not> HasPrefix (TrimSpace l) ''|http://'' \<and>
        \<not> HasPrefix (TrimSpace l) ''.'' \<longrightarrow>
        parseLine urlHost l =
          (let s = TrimSpace l; site = takeWhile (\<lambda>c. c \<noteq> CHR ''/'') s
           in if \<not> skippedLine s \<and> CHR ''*'' \<notin> set s \<and> site \<noteq> [] \<and> list_all hostChar site
              then Some site else None))"
  using parseLine_example_com parseLine_example_co parseLine_example_net parseLine_exception
    parseLine_blank parseLine_bare_host
  by blast

lemma TrimSpace_invalid: "TrimSpace ''exa mple.net'' = ''exa mple.net''"
  by code_simp

theorem parseLine_cases_witness:
  "\<not> HasPrefix (TrimSpace ''exa mple.net'') ''||'' \<and>
   \<not> HasPrefix (TrimSpace ''exa mple.net'') ''|http://'' \<and>
   \<not> HasPrefix (TrimSpace ''exa mple.net'') ''.'' \<and>
   parseLine (\<lambda>s. None) ''exa mple.net'' = None"
proof -
  have shape: "\<not> HasPrefix (TrimSpace ''exa mple.net'') ''||''"
    "\<not> HasPrefix (TrimSpace ''exa mple.net'') ''|http://''"
    "\<not> HasPrefix (TrimSpace ''exa mple.net'') ''.''"
    by (simp_all add: TrimSpace_invalid HasPrefix_def)
  with parseLine_cases [of "\<lambda>s. None"]
  have "parseLine (\<lambda>s. None) ''exa mple.net'' =
      (let s = TrimSpace ''exa mple.net''; site = takeWhile (\<lambda>c. c \<noteq> CHR ''/'') s
       in if \<not> skippedLine s \<and> CHR ''*'' \<notin> set s \<and> site \<noteq> [] \<and> list_all hostChar site
          then Some site else None)"
    by blast
  then have "parseLine (\<lambda>s. None) ''exa mple.net'' = None"
    by (simp add: TrimSpace_invalid hostChar_def)
  with shape show ?thesis by simp
qed

text \<open>
  Claim C5 as stated fails for its last part: this line is of no other shape and has
  characters outside the set (the slash and the space), and it adds a rule.
\<close>

theorem parseLine_invalid_counterexample:
  "\<not> list_all hostChar ''example.net/a b'' \<and>
   parseLine (\<lambda>s. None) ''example.net/a b'' = Some ''example.net''"
proof -
  have "parseLine (\<lambda>s. None) ''example.net/a b'' = Some ''example.net''"
    by code_simp
  then show ?thesis by (simp add: hostChar_def)
qed

section \<open>Properties of the generated literal\<close>

lemma foldl_append_concat:
  "foldl (\<lambda>b x. b @ g x) buf xs = buf @ concat (map g xs)"
  by (induction xs arbitrary: buf) simp_all

lemma writeSites_text:
  \<open>writeSites buf ds =
     buf @ ''\<newline>var sites = {\<newline>'' @ concat (map (\<lambda>site. ''"'' @ site @ ''":1,\<newline>'') ds) @
     ''"google.com":1\<newline>'' @ ''}\<newline>''\<close>
proof -
  have \<open>foldl (\<lambda>b site. b @ ''"'' @ site @ ''":1,\<newline>'') b0 ds =
      b0 @ concat (map (\<lambda>site. ''"'' @ site @ ''":1,\<newline>'') ds)\<close> for b0
    by (rule foldl_append_concat)
  then show ?thesis
    by (simp add: writeSites_def Let_def)
qed

lemma rawLines_line:
  "CHR 0x0A \<notin> set l \<Longrightarrow> rawLines acc (l @ CHR 0x0A # rest) = (rev acc @ l) # rawLines [] rest"
  by (induction l arbitrary: acc) auto

lemma rawLines_entries:
  assumes "\<forall>d \<in> set ds. CHR 0x0A \<notin> set d"
  shows \<open>rawLines [] (concat (map (\<lambda>site. ''"'' @ site @ ''":1,\<newline>'') ds) @ rest) =
    map (\<lambda>site. ''"'' @ site @ ''":1,'') ds @ rawLines [] rest\<close>
  using assms
proof (induction ds)
  case Nil
  then show ?case by simp
next
  case (Cons d ds)
  then have nl: \<open>CHR 0x0A \<notin> set (''"'' @ d @ ''":1,'')\<close> by simp
  have \<open>rawLines [] ((''"'' @ d @ ''":1,'') @ CHR 0x0A # r) = (''"'' @ d @ ''":1,'') # rawLines [] r\<close>
    for r
    using rawLines_line [OF nl, of "[]" r] by simp
  with Cons show ?case by simp
qed

lemma entryKey_entry: \<open>entryKey (CHR 0x22 # d @ ''":1,'') = Some d\<close>
  by (simp add: entryKey_def suffix_def)

lemma map_filter_entries:
  \<open>List.map_filter entryKey (map (\<lambda>site. ''"'' @ site @ ''":1,'') ds @ ls) =
    ds @ List.map_filter entryKey ls\<close>
  by (induction ds) (simp_all add: entryKey_entry)

lemma siteEntries_writeSites:
  assumes "\<forall>d \<in> set ds. CHR 0x0A \<notin> set d"
  shows "siteEntries (writeSites [] ds) = ds @ [''google.com'']"
proof -
  have tail: \<open>rawLines [] (''"google.com":1\<newline>'' @ ''}\<newline>'') = [''"google.com":1'', ''}'']\<close>
    by simp
  have \<open>rawLines [] (writeSites [] ds) =
      [[], ''var sites = {''] @ map (\<lambda>site. ''"'' @ site @ ''":1,'') ds @ [''"google.com":1'', ''}'']\<close>
    using rawLines_entries [OF assms, of \<open>''"google.com":1\<newline>'' @ ''}\<newline>''\<close>]
    unfolding writeSites_text tail by simp
  moreover have \<open>List.map_filter entryKey [''"google.com":1'', ''}''] = [''google.com'']\<close>
    by (simp add: entryKey_def suffix_to_prefix)
  ultimately show ?thesis
    using map_filter_entries [of ds \<open>[''"google.com":1'', ''}'']\<close>]
    by (simp add: siteEntries_def entryKey_def)
qed

text \<open>
  Claim C3, as the code has it. The literal is the opening line, one entry per element
  of \<^verbatim>\<open>Domains\<close> in its order, then one entry for \<^verbatim>\<open>google.com\<close>, which the code
  writes for every domain set, and the closing brace. A reader of the literal finds the
  domains and \<^verbatim>\<open>google.com\<close> after them.
\<close>

theorem writeSites_entries:
  \<open>writeSites buf ds =
     buf @ ''\<newline>var sites = {\<newline>'' @ concat (map (\<lambda>site. ''"'' @ site @ ''":1,\<newline>'') ds) @
     ''"google.com":1\<newline>'' @ ''}\<newline>'' \<and>
   ((\<forall>d \<in> set ds. CHR 0x0A \<notin> set d) \<longrightarrow> siteEntries (writeSites [] ds) = ds @ [''google.com''])\<close>
  using writeSites_text siteEntries_writeSites by blast

theorem writeSites_entries_witness:
  "siteEntries (writeSites [] [''example.com'', ''foo.org'']) =
     [''example.com'', ''foo.org'', ''google.com'']"
  using writeSites_entries [of "[]" "[''example.com'', ''foo.org'']", THEN conjunct2] by simp

text \<open>
  Claim C3 as stated fails: for the empty domain set the literal has an entry, and it is
  for a domain outside the set.
\<close>

theorem writeSites_counterexample:
  "siteEntries (writeSites [] []) = [''google.com''] \<and> ''google.com'' \<notin> set ([] :: string list)"
  by (simp add: siteEntries_def writeSites_def entryKey_def suffix_to_prefix)

section \<open>Properties of the handler\<close>

lemma okResponse_fields:
  "StatusCode (okResponse req s) = 200" "Close (okResponse req s)"
  "ContentLength (okResponse req s) = int (length s)"
  "Body (okResponse req s) = Some (NewReader s)"
  by (simp_all add: okResponse_def)

lemma ProxyPacRoundTrip_hit:
  assumes "CacheGet (ProxyPacCache f) (Path req) = Some script"
  shows "ProxyPacRoundTrip uni SplitHostPort ops now f req =
    Done (f, Inr (okResponse req (fixProxyPac uni script req)))"
  using assms by (simp add: ProxyPacRoundTrip_def)

lemma ProxyPacRoundTrip_miss:
  assumes "CacheGet (ProxyPacCache f) (Path req) = None"
    and "ProxyPacRoundTrip uni SplitHostPort ops now f req = Done (f', Inr resp)"
  shows "\<exists>script b st port.
    firstRead ops (drop 1 (Path req)) port (Store f) = Done (None, st) \<and>
    readTemplate ops (GFWListEnabled f) (drop 1 (Path req)) st = Done (b, Store f') \<and>
    script = (if GFWListEnabled f then writeSites b (Domains (GFWListDomains f)) @ wrapperPac else b) \<and>
    ProxyPacCache f' = CacheSet (ProxyPacCache f) (Path req) script (now + 15 * Minute) \<and>
    resp = okResponse req (fixProxyPac uni script req)"
proof (cases "Path req")
  case Nil
  with assms show ?thesis by (simp add: ProxyPacRoundTrip_def)
next
  case (Cons c filename)
  define port where "port = (case SplitHostPort (Host req) of Some p \<Rightarrow> p | None \<Rightarrow> ''80'')"
  from assms Cons obtain st where first: "firstRead ops filename port (Store f) = Done (None, st)"
    by (auto simp: ProxyPacRoundTrip_def port_def split: outcome.splits option.splits)
  with assms Cons obtain b st' where
    second: "readTemplate ops (GFWListEnabled f) filename st = Done (b, st')"
    by (auto simp: ProxyPacRoundTrip_def port_def split: outcome.splits)
  let ?script = "if GFWListEnabled f then writeSites b (Domains (GFWListDomains f)) @ wrapperPac else b"
  from assms Cons first second have
    "f' = f\<lparr>Store := st', ProxyPacCache :=
        CacheSet (ProxyPacCache f) (Path req) ?script (now + 15 * Minute)\<rparr>"
    "resp = okResponse req (fixProxyPac uni ?script req)"
    by (auto simp: ProxyPacRoundTrip_def port_def Let_def)
  with first second Cons show ?thesis
    by (intro exI [of _ ?script] exI [of _ b] exI [of _ st] exI [of _ port]) simp
qed

text \<open>
  Claim C8. A response of the handler has status 200, is marked \<^verbatim>\<open>Close\<close>, and its
  body is \<^verbatim>\<open>fixProxyPac\<close> of a script, with the length of that body as
  \<^verbatim>\<open>ContentLength\<close>. The script is the one that \<^verbatim>\<open>Get\<close> finds in the cache for the
  path, expired or not, and then the filter is left as it was; or, when the cache has
  none, the one rendered from the stored script, which this call enters in the cache.
\<close>

theorem ProxyPacRoundTrip_response:
  assumes "ProxyPacRoundTrip uni SplitHostPort ops now f req = Done (f', Inr resp)"
  shows "StatusCode resp = 200 \<and> Close resp \<and>
    (\<exists>script.
       (ProxyPacCache f (Path req) \<noteq> None \<and>
        CacheGet (ProxyPacCache f) (Path req) = Some script \<and> f' = f \<or>
        ProxyPacCache f (Path req) = None \<and>
        (\<exists>b st. readTemplate ops (GFWListEnabled f) (drop 1 (Path req)) st = Done (b, Store f') \<and>
           script = (if GFWListEnabled f
                     then writeSites b (Domains (GFWListDomains f)) @ wrapperPac else b)) \<and>
        ProxyPacCache f' (Path req) = Some (script, now + 15 * Minute)) \<and>
       Body resp = Some (NewReader (fixProxyPac uni script req)) \<and>
       ContentLength resp = int (length (fixProxyPac uni script req)))"
proof -
  have "\<exists>script.
      (ProxyPacCache f (Path req) \<noteq> None \<and>
       CacheGet (ProxyPacCache f) (Path req) = Some script \<and> f' = f \<or>
       ProxyPacCache f (Path req) = None \<and>
       (\<exists>b st. readTemplate ops (GFWListEnabled f) (drop 1 (Path req)) st = Done (b, Store f') \<and>
          script = (if GFWListEnabled f
                    then writeSites b (Domains (GFWListDomains f)) @ wrapperPac else b)) \<and>
       ProxyPacCache f' (Path req) = Some (script, now + 15 * Minute)) \<and>
      resp = okResponse req (fixProxyPac uni script req)"
  proof (cases "CacheGet (ProxyPacCache f) (Path req)")
    case (Some script)
    then have present: "ProxyPacCache f (Path req) \<noteq> None"
      by (auto simp: CacheGet_def split: option.splits)
    from assms ProxyPacRoundTrip_hit [OF Some, of uni SplitHostPort ops now]
    have "resp = okResponse req (fixProxyPac uni script req)" "f' = f" by simp_all
    with Some present show ?thesis by blast
  next
    case None
    then have absent: "ProxyPacCache f (Path req) = None"
      by (auto simp: CacheGet_def split: option.splits)
    from ProxyPacRoundTrip_miss [OF None assms] obtain script b st where
      rd: "readTemplate ops (GFWListEnabled f) (drop 1 (Path req)) st = Done (b, Store f')"
      and sc: "script = (if GFWListEnabled f
                  then writeSites b (Domains (GFWListDomains f)) @ wrapperPac else b)"
      and ca: "ProxyPacCache f' = CacheSet (ProxyPacCache f) (Path req) script (now + 15 * Minute)"
      and re: "resp = okResponse req (fixProxyPac uni script req)"
      by blast
    from ca have "ProxyPacCache f' (Path req) = Some (script, now + 15 * Minute)"
      by (simp add: CacheSet_def)
    with absent rd sc re show ?thesis by blast
  qed
  then obtain script where
    "ProxyPacCache f (Path req) \<noteq> None \<and>
       CacheGet (ProxyPacCache f) (Path req) = Some script \<and> f' = f \<or>
       ProxyPacCache f (Path req) = None \<and>
       (\<exists>b st. readTemplate ops (GFWListEnabled f) (drop 1 (Path req)) st = Done (b, Store f') \<and>
          script = (if GFWListEnabled f
                    then writeSites b (Domains (GFWListDomains f)) @ wrapperPac else b)) \<and>
       ProxyPacCache f' (Path req) = Some (script, now + 15 * Minute)"
    and "resp = okResponse req (fixProxyPac uni script req)"
    by blast
  then show ?thesis
    by (intro conjI exI [of _ script]) (simp_all add: okResponse_fields)
qed

lemma exampleFilter_hit:
  "CacheGet (ProxyPacCache exampleFilter) ''/proxy.pac'' = Some ''return 'PROXY 127.0.1.2:8087';''"
  by (simp add: CacheGet_def exampleFilter_def)

lemma fixProxyPac_example:
  "fixProxyPac uni ''return 'PROXY 127.0.1.2:8087';'' \<lparr>Host = ''10.0.0.1:8087'', Path = p\<rparr> =
     ''return 'PROXY 10.0.0.1:8087';''"
  by code_simp

lemma example_miss_run:
  "ProxyPacRoundTrip (\<lambda>r. False) (\<lambda>h. Some ''8087'') fileStore 1000 missFilter
     \<lparr>Host = ''10.0.0.1:8087'', Path = ''/proxy.pac''\<rparr> =
   Done (missFilter\<lparr>ProxyPacCache := [''/proxy.pac'' \<mapsto>
           (''return 'PROXY 127.0.1.2:8087';'', 1000 + 15 * Minute)]\<rparr>,
         Inr (okResponse \<lparr>Host = ''10.0.0.1:8087'', Path = ''/proxy.pac''\<rparr>
                (fixProxyPac (\<lambda>r. False) ''return 'PROXY 127.0.1.2:8087';''
                   \<lparr>Host = ''10.0.0.1:8087'', Path = ''/proxy.pac''\<rparr>)))"
  by (simp add: ProxyPacRoundTrip_def CacheGet_def CacheSet_def missFilter_def firstRead_def
      readTemplate_def fileStore_def fileResponse_def IsNotExist_def ReadAll_def NewReader_def)

text \<open>
  Two requests: one answered from an entry of the cache that expired at instant 900 and
  is asked for at instant 1000, and one that finds the cache empty.
\<close>

theorem ProxyPacRoundTrip_response_witness:
  "(\<exists>f' resp.
      ProxyPacRoundTrip (\<lambda>r. False) (\<lambda>h. Some ''8087'') fileStore 1000 exampleFilter
        \<lparr>Host = ''10.0.0.1:8087'', Path = ''/proxy.pac''\<rparr> = Done (f', Inr resp) \<and>
      StatusCode resp = 200 \<and> Close resp \<and> ContentLength resp = 29 \<and>
      Body resp = Some (NewReader ''return 'PROXY 10.0.0.1:8087';'')) \<and>
   (\<exists>f' resp.
      ProxyPacRoundTrip (\<lambda>r. False) (\<lambda>h. Some ''8087'') fileStore 1000 missFilter
        \<lparr>Host = ''10.0.0.1:8087'', Path = ''/proxy.pac''\<rparr> = Done (f', Inr resp) \<and>
      StatusCode resp = 200 \<and> Close resp \<and> ContentLength resp = 29 \<and>
      Body resp = Some (NewReader ''return 'PROXY 10.0.0.1:8087';'') \<and>
      ProxyPacCache f' ''/proxy.pac'' =
        Some (''return 'PROXY 127.0.1.2:8087';'', 1000 + 15 * Minute))"
proof -
  let ?req = "\<lparr>Host = ''10.0.0.1:8087'', Path = ''/proxy.pac''\<rparr>"
  let ?resp = "okResponse ?req (fixProxyPac (\<lambda>r. False) ''return 'PROXY 127.0.1.2:8087';'' ?req)"
  let ?f' = "missFilter\<lparr>ProxyPacCache := [''/proxy.pac'' \<mapsto>
           (''return 'PROXY 127.0.1.2:8087';'', 1000 + 15 * Minute)]\<rparr>"
  have fields: "ContentLength ?resp = 29 \<and>
      Body ?resp = Some (NewReader ''return 'PROXY 10.0.0.1:8087';'')"
    by (simp add: okResponse_fields fixProxyPac_example)
  have hit: "ProxyPacRoundTrip (\<lambda>r. False) (\<lambda>h. Some ''8087'') fileStore 1000 exampleFilter ?req =
      Done (exampleFilter, Inr ?resp)"
    using exampleFilter_hit by (simp add: ProxyPacRoundTrip_def)
  from ProxyPacRoundTrip_response [OF hit]
  have "StatusCode ?resp = 200 \<and> Close ?resp" by blast
  with fields hit have first: "\<exists>f' resp.
      ProxyPacRoundTrip (\<lambda>r. False) (\<lambda>h. Some ''8087'') fileStore 1000 exampleFilter ?req =
        Done (f', Inr resp) \<and>
      StatusCode resp = 200 \<and> Close resp \<and> ContentLength resp = 29 \<and>
      Body resp = Some (NewReader ''return 'PROXY 10.0.0.1:8087';'')"
    by blast
  have miss: "ProxyPacRoundTrip (\<lambda>r. False) (\<lambda>h. Some ''8087'') fileStore 1000 missFilter ?req =
      Done (?f', Inr ?resp)"
    by (rule example_miss_run)
  from ProxyPacRoundTrip_response [OF miss]
  have "StatusCode ?resp = 200 \<and> Close ?resp" by blast
  moreover have "ProxyPacCache ?f' ''/proxy.pac'' =
      Some (''return 'PROXY 127.0.1.2:8087';'', 1000 + 15 * Minute)"
    by simp
  ultimately have second: "\<exists>f' resp.
      ProxyPacRoundTrip (\<lambda>r. False) (\<lambda>h. Some ''8087'') fileStore 1000 missFilter ?req =
        Done (f', Inr resp) \<and>
      StatusCode resp = 200 \<and> Close resp \<and> ContentLength resp = 29 \<and>
      Body resp = Some (NewReader ''return 'PROXY 10.0.0.1:8087';'') \<and>
      ProxyPacCache f' ''/proxy.pac'' =
        Some (''return 'PROXY 127.0.1.2:8087';'', 1000 + 15 * Minute)"
    using fields miss by blast
  from first second show ?thesis by blast
qed

text \<open>
  Claim C10. When the cache has no entry for the path, the result of the first read of
  the store is used before its error is looked at: the status code when the error is not
  a does-not-exist error, the body when it is. A read that gives no response therefore
  ends in a nil-pointer panic, whatever its error, and the error is not returned.
\<close>

theorem ProxyPacRoundTrip_nil_response:
  assumes "ProxyPacCache f (Path req) = None"
    and "Path req = c # filename"
    and "StoreGet ops filename (Store f) = ((None, err), st)"
  shows "ProxyPacRoundTrip uni SplitHostPort ops now f req = Panic NilDereference"
proof -
  have "firstRead ops filename port (Store f) = Panic NilDereference" for port
    using assms(3) by (simp add: firstRead_def split: prod.splits)
  with assms(1,2) show ?thesis
    by (simp add: ProxyPacRoundTrip_def CacheGet_def)
qed

theorem ProxyPacRoundTrip_nil_response_witness:
  "ProxyPacCache missFilter ''/proxy.pac'' = None \<and>
   StoreGet brokenStore ''proxy.pac'' (Store missFilter) =
     ((None, Some (ErrOther ''timeout'')), Store missFilter) \<and>
   \<not> IsNotExist (Some (ErrOther ''timeout'')) \<and>
   ProxyPacRoundTrip (\<lambda>r. False) (\<lambda>h. None) brokenStore 1000 missFilter
     \<lparr>Host = ''10.0.0.1'', Path = ''/proxy.pac''\<rparr> = Panic NilDereference"
proof -
  have miss: "ProxyPacCache missFilter
      (Path \<lparr>Host = ''10.0.0.1'', Path = ''/proxy.pac''\<rparr>) = None"
    by (simp add: missFilter_def)
  have path: "Path \<lparr>Host = ''10.0.0.1'', Path = ''/proxy.pac''\<rparr> = CHR ''/'' # ''proxy.pac''"
    by simp
  have read: "StoreGet brokenStore ''proxy.pac'' (Store missFilter) =
      ((None, Some (ErrOther ''timeout'')), Store missFilter)"
    by (simp add: brokenStore_def)
  from ProxyPacRoundTrip_nil_response [OF miss path read] miss read
  show ?thesis by (simp add: IsNotExist_def)
qed

text \<open>
  Claim C6 at a host with a dollar sign. \<^verbatim>\<open>ReplaceAllString\<close> reads its replacement as
  a template, so the host \<^verbatim>\<open>a$0b\<close> is not what replaces the placeholder: \<^verbatim>\<open>$0b\<close>
  names a submatch that does not exist and expands to nothing.
\<close>

theorem ProxyPacRoundTrip_dollar_host:
  "ProxyPacRoundTrip uni (\<lambda>h. None) fileStore 0 exampleFilter \<lparr>Host = ''a$0b'', Path = ''/proxy.pac''\<rparr> =
     Done (exampleFilter,
       Inr (okResponse \<lparr>Host = ''a$0b'', Path = ''/proxy.pac''\<rparr> ''return 'PROXY a';''))"
proof -
  have "fixProxyPac uni ''return 'PROXY 127.0.1.2:8087';'' \<lparr>Host = ''a$0b'', Path = ''/proxy.pac''\<rparr> =
      ''return 'PROXY a';''"
    by code_simp
  with exampleFilter_hit show ?thesis
    by (simp add: ProxyPacRoundTrip_def)
qed

section \<open>Properties of the updater\<close>

lemma stageCheck_Inr:
  assumes "stageCheck ops env f = Inr f1"
  shows "history f1 = history f @ [StoreHeadEv] \<and> GFWList f1 = GFWList f \<and>
    GFWListDomains f1 = GFWListDomains f \<and> ProxyPacCache f1 = ProxyPacCache f"
  using assms
  by (auto simp: stageCheck_def Let_def emit_def split: prod.splits option.splits if_splits)

lemma stageCheck_Inl:
  assumes "stageCheck ops env f = Inl (e, f1)"
  shows "e \<noteq> Updated \<and> e \<noteq> Fatal"
  using assms
  by (auto simp: stageCheck_def Let_def split: prod.splits option.splits if_splits)

lemma stageDownload_Inr:
  assumes "stageDownload env f = Inr (data, f2)"
  shows "history f2 = history f @ [RoundTripEv] \<and> GFWList f2 = GFWList f \<and>
    GFWListDomains f2 = GFWListDomains f \<and> ProxyPacCache f2 = ProxyPacCache f"
  using assms
  by (auto simp: stageDownload_def Let_def emit_def split: prod.splits option.splits sum.splits)

lemma stageDownload_Inl:
  assumes "stageDownload env f = Inl (e, f1)"
  shows "e \<noteq> Updated \<and> e \<noteq> Fatal"
  using assms
  by (auto simp: stageDownload_def Let_def split: prod.splits option.splits sum.splits)

lemma stagePersist_Inr:
  assumes "stagePersist ops data f = Inr f3"
  shows "history f3 = history f @ [StoreDeleteEv, StorePutEv data] \<and> GFWList f3 = GFWList f \<and>
    GFWListDomains f3 = GFWListDomains f \<and> ProxyPacCache f3 = ProxyPacCache f"
  using assms
  by (auto simp: stagePersist_def Let_def emit_def split: prod.splits option.splits)

lemma stagePersist_Inl:
  assumes "stagePersist ops data f = Inl (e, f1)"
  shows "e \<noteq> Updated \<and> e \<noteq> Fatal"
  using assms
  by (auto simp: stagePersist_def Let_def split: prod.splits option.splits)

lemma stagePublish_parse_failure:
  assumes "legallyParseGFWList (urlParseHost env) ops (Filename (GFWList f)) (Store f) =
    Done (Inl e, st)"
  shows "stagePublish ops env f = (Fatal, emit FatalEv (setDomains [] ((Lock f)\<lparr>Store := st\<rparr>)))"
  using assms by (simp add: stagePublish_def Let_def Lock_def emit_def)

lemma fatal_state:
  "Domains (GFWListDomains (emit FatalEv (setDomains [] ((Lock f)\<lparr>Store := st\<rparr>)))) = [] \<and>
   mu (GFWListDomains (emit FatalEv (setDomains [] ((Lock f)\<lparr>Store := st\<rparr>)))) \<and>
   ProxyPacCache (emit FatalEv (setDomains [] ((Lock f)\<lparr>Store := st\<rparr>))) = ProxyPacCache f \<and>
   history (emit FatalEv (setDomains [] ((Lock f)\<lparr>Store := st\<rparr>))) =
     history f @ [LockEv, UpdateEv [], FatalEv]"
  by (simp add: emit_def setDomains_def Lock_def)

lemma pacUpdaterCycle_stages:
  assumes "stageCheck ops env f = Inr f1" "stageDownload env f1 = Inr (data, f2)"
    "stagePersist ops data f2 = Inr f3"
  shows "pacUpdaterCycle ops env f = stagePublish ops env f3"
  using assms by (simp add: pacUpdaterCycle_def)

text \<open>
  Claim C9. When the check of the local copy finds a last-modified time that parses and
  whose age, as \<^verbatim>\<open>time.Now().Sub(modTime)\<close> gives it, is below \<^verbatim>\<open>Expiry\<close>, the pass
  ends there: of the updater's effects only the \<^verbatim>\<open>Head\<close> request has happened (no
  download, no update of the domains), and the domains and the cache are as before.
\<close>

theorem pacUpdaterCycle_not_modified:
  assumes "StoreHead ops (Filename (GFWList f)) (Store f) = ((Some r, None), st)"
    and "HeaderGet (Header r) ''Last-Modified'' = lm" and "lm \<noteq> []"
    and "timeParse env lm = Some modTime"
    and "Sub (timeNow env) modTime < Expiry (GFWList f)"
  shows "\<exists>f'. pacUpdaterCycle ops env f = (NotModified, f') \<and>
    history f' = history f @ [StoreHeadEv] \<and>
    GFWListDomains f' = GFWListDomains f \<and> ProxyPacCache f' = ProxyPacCache f"
proof -
  from assms have "stageCheck ops env f = Inl (NotModified, emit StoreHeadEv (f\<lparr>Store := st\<rparr>))"
    by (simp add: stageCheck_def Let_def)
  then have "pacUpdaterCycle ops env f = (NotModified, emit StoreHeadEv (f\<lparr>Store := st\<rparr>))"
    by (simp add: pacUpdaterCycle_def)
  then show ?thesis by (simp add: emit_def)
qed

lemma example_head:
  "StoreHead fileStore (Filename (GFWList exampleFilter)) (Store exampleFilter) =
     ((Some (fileResponse 200 []), None), Store exampleFilter)"
  by (simp add: fileStore_def exampleFilter_def)

lemma example_last_modified:
  "HeaderGet (Header (fileResponse 200 [])) ''Last-Modified'' = ''Mon, 02 Jan 2006 15:04:05 GMT''"
  by (simp add: HeaderGet_def fileResponse_def)

theorem pacUpdaterCycle_not_modified_witness:
  "Sub (timeNow (exampleEnv 1200000000000)) 0 < Expiry (GFWList exampleFilter) \<and>
   (\<exists>f'. pacUpdaterCycle fileStore (exampleEnv 1200000000000) exampleFilter = (NotModified, f') \<and>
     history f' = [StoreHeadEv] \<and> Domains (GFWListDomains f') = [''example.com''])"
proof -
  have parse: "timeParse (exampleEnv 1200000000000) ''Mon, 02 Jan 2006 15:04:05 GMT'' = Some 0"
    by (simp add: exampleEnv_def)
  have age: "Sub (timeNow (exampleEnv 1200000000000)) 0 < Expiry (GFWList exampleFilter)"
    by (simp add: Sub_def minDuration_def maxDuration_def exampleEnv_def exampleFilter_def)
  from pacUpdaterCycle_not_modified [OF example_head example_last_modified _ parse age]
  obtain f' where "pacUpdaterCycle fileStore (exampleEnv 1200000000000) exampleFilter = (NotModified, f')"
    "history f' = history exampleFilter @ [StoreHeadEv]"
    "GFWListDomains f' = GFWListDomains exampleFilter"
    by auto
  then have "pacUpdaterCycle fileStore (exampleEnv 1200000000000) exampleFilter = (NotModified, f') \<and>
     history f' = [StoreHeadEv] \<and> Domains (GFWListDomains f') = [''example.com'']"
    by (simp add: exampleFilter_def)
  with age show ?thesis by blast
qed

lemma stageCheck_Inr_head:
  assumes "stageCheck ops env f = Inr f1"
  shows "\<exists>res st. StoreHead ops (Filename (GFWList f)) (Store f) = (res, st) \<and>
    f1 = emit StoreHeadEv (f\<lparr>Store := st\<rparr>)"
  using assms
  by (auto simp: stageCheck_def Let_def split: prod.splits option.splits if_splits)

lemma stageDownload_Inr_body:
  assumes "stageDownload env f = Inr (data, f2)"
  shows "\<exists>resp body. roundTrip env = (Some resp, None) \<and> Body resp = Some body \<and>
    readBody env (Encoding (GFWList f)) body = Inr data \<and> f2 = emit RoundTripEv f"
  using assms
  by (auto simp: stageDownload_def Let_def split: prod.splits option.splits sum.splits)

lemma stagePersist_Inr_store:
  assumes "stagePersist ops data f = Inr f3"
  shows "\<exists>del st1 put st2.
    StoreDelete ops (Filename (GFWList f)) (Store f) = ((del, None), st1) \<and>
    StorePut ops (Filename (GFWList f)) Map.empty (NewReader data) st1 = ((put, None), st2) \<and>
    Store f3 = st2"
  using assms
  by (auto simp: stagePersist_def Let_def emit_def split: prod.splits option.splits)

lemma stagePublish_Updated_parse:
  assumes "stagePublish ops env f = (Updated, f')"
  shows "\<exists>sites st.
    legallyParseGFWList (urlParseHost env) ops (Filename (GFWList f)) (Store f) =
      Done (Inr sites, st) \<and>
    Store f' = st \<and> Domains (GFWListDomains f') = sites \<and> \<not> mu (GFWListDomains f') \<and>
    ProxyPacCache f' = Map.empty \<and>
    history f' = history f @ [LockEv, UpdateEv sites, UnlockEv, CacheClearEv]"
  using assms
  by (auto simp: stagePublish_def Let_def emit_def Lock_def Unlock_def setDomains_def
      clearCache_def CacheClear_def split: outcome.splits prod.splits sum.splits)

text \<open>
  Claim C7. A pass that reaches the end of the loop body has done this, each step on
  the state of the store that the step before left: the \<^verbatim>\<open>Head\<close> request; the
  download, whose decoded bytes are \<open>data\<close>; the deletion of the old copy; the storing
  of \<open>data\<close> under the file name, without an error; the parse of the file as the store
  then returns it, whose sorted rules are \<open>sites\<close>. At the end \<^verbatim>\<open>Domains\<close> is
  \<open>sites\<close>, the lock is free and the cache is empty. The history gives the order: the
  bytes are stored before the lock is taken, the domains are assigned under the lock,
  and the lock is released before the cache is cleared.
\<close>

theorem pacUpdaterCycle_updated_order:
  assumes "pacUpdaterCycle ops env f = (Updated, f')"
  shows "\<exists>res st0 resp body data del st1 put st2 sites st3.
    StoreHead ops (Filename (GFWList f)) (Store f) = (res, st0) \<and>
    roundTrip env = (Some resp, None) \<and> Body resp = Some body \<and>
    readBody env (Encoding (GFWList f)) body = Inr data \<and>
    StoreDelete ops (Filename (GFWList f)) st0 = ((del, None), st1) \<and>
    StorePut ops (Filename (GFWList f)) Map.empty (NewReader data) st1 = ((put, None), st2) \<and>
    legallyParseGFWList (urlParseHost env) ops (Filename (GFWList f)) st2 =
      Done (Inr sites, st3) \<and>
    Store f' = st3 \<and> Domains (GFWListDomains f') = sites \<and> \<not> mu (GFWListDomains f') \<and>
    ProxyPacCache f' = Map.empty \<and>
    history f' = history f @ [StoreHeadEv, RoundTripEv, StoreDeleteEv, StorePutEv data,
      LockEv, UpdateEv sites, UnlockEv, CacheClearEv]"
proof -
  from assms obtain f1 where c: "stageCheck ops env f = Inr f1"
    by (cases "stageCheck ops env f") (auto simp: pacUpdaterCycle_def dest: stageCheck_Inl)
  with assms obtain data f2 where d: "stageDownload env f1 = Inr (data, f2)"
    by (cases "stageDownload env f1") (auto simp: pacUpdaterCycle_def dest: stageDownload_Inl)
  with assms c obtain f3 where p: "stagePersist ops data f2 = Inr f3"
    by (cases "stagePersist ops data f2") (auto simp: pacUpdaterCycle_def dest: stagePersist_Inl)
  from assms pacUpdaterCycle_stages [OF c d p] have u: "stagePublish ops env f3 = (Updated, f')"
    by simp
  from stageCheck_Inr_head [OF c] obtain res st0 where
    h: "StoreHead ops (Filename (GFWList f)) (Store f) = (res, st0)"
    and f1: "f1 = emit StoreHeadEv (f\<lparr>Store := st0\<rparr>)"
    by blast
  from stageDownload_Inr_body [OF d] obtain resp body where
    r: "roundTrip env = (Some resp, None)" "Body resp = Some body"
    "readBody env (Encoding (GFWList f1)) body = Inr data"
    and f2: "f2 = emit RoundTripEv f1"
    by blast
  from stagePersist_Inr_store [OF p] obtain del st1 put st2 where
    s: "StoreDelete ops (Filename (GFWList f2)) (Store f2) = ((del, None), st1)"
    "StorePut ops (Filename (GFWList f2)) Map.empty (NewReader data) st1 = ((put, None), st2)"
    "Store f3 = st2"
    by blast
  from stagePublish_Updated_parse [OF u] obtain sites st3 where
    q: "legallyParseGFWList (urlParseHost env) ops (Filename (GFWList f3)) (Store f3) =
      Done (Inr sites, st3)"
    "Store f' = st3" "Domains (GFWListDomains f') = sites" "\<not> mu (GFWListDomains f')"
    "ProxyPacCache f' = Map.empty"
    "history f' = history f3 @ [LockEv, UpdateEv sites, UnlockEv, CacheClearEv]"
    by blast
  have g: "GFWList f1 = GFWList f" "GFWList f2 = GFWList f" "GFWList f3 = GFWList f"
    "Store f2 = st0"
    "history f3 = history f @ [StoreHeadEv, RoundTripEv, StoreDeleteEv, StorePutEv data]"
    using stageCheck_Inr [OF c] stageDownload_Inr [OF d] stagePersist_Inr [OF p] f1 f2
    by (simp_all add: emit_def)
  from h r s q show ?thesis
    unfolding g
    by (intro exI [of _ res] exI [of _ st0] exI [of _ resp] exI [of _ body] exI [of _ data]
        exI [of _ del] exI [of _ st1] exI [of _ put] exI [of _ st2] exI [of _ sites]
        exI [of _ st3]) simp
qed

lemma example_updated:
  "fst (pacUpdaterCycle fileStore (exampleEnv 7200000000000) exampleFilter) = Updated"
  by code_simp

lemma example_updated_state:
  "Domains (GFWListDomains (snd (pacUpdaterCycle fileStore (exampleEnv 7200000000000)
     exampleFilter))) = [''bar.com'', ''foo.org'']"
  "Store (snd (pacUpdaterCycle fileStore (exampleEnv 7200000000000) exampleFilter))
     ''gfwlist.txt'' = Some (''||foo.org/x'' @ [CHR 0x0A] @ ''.bar.co'')"
  by code_simp+

theorem pacUpdaterCycle_updated_order_witness:
  "\<exists>f' data.
     pacUpdaterCycle fileStore (exampleEnv 7200000000000) exampleFilter = (Updated, f') \<and>
     history f' = [StoreHeadEv, RoundTripEv, StoreDeleteEv, StorePutEv data,
       LockEv, UpdateEv [''bar.com'', ''foo.org''], UnlockEv, CacheClearEv] \<and>
     Store f' ''gfwlist.txt'' = Some (''||foo.org/x'' @ [CHR 0x0A] @ ''.bar.co'') \<and>
     Domains (GFWListDomains f') = [''bar.com'', ''foo.org''] \<and> ProxyPacCache f' = Map.empty"
proof -
  obtain f' where run:
    "pacUpdaterCycle fileStore (exampleEnv 7200000000000) exampleFilter = (Updated, f')"
    using example_updated
    by (cases "pacUpdaterCycle fileStore (exampleEnv 7200000000000) exampleFilter") auto
  from pacUpdaterCycle_updated_order [OF run] obtain data sites where
    "history f' = history exampleFilter @ [StoreHeadEv, RoundTripEv, StoreDeleteEv,
      StorePutEv data, LockEv, UpdateEv sites, UnlockEv, CacheClearEv]"
    "Domains (GFWListDomains f') = sites" "ProxyPacCache f' = Map.empty"
    by blast
  moreover have "history exampleFilter = []" by (simp add: exampleFilter_def)
  moreover have "Domains (GFWListDomains f') = [''bar.com'', ''foo.org'']"
    "Store f' ''gfwlist.txt'' = Some (''||foo.org/x'' @ [CHR 0x0A] @ ''.bar.co'')"
    using example_updated_state run by simp_all
  ultimately show ?thesis using run by auto
qed

text \<open>
  When a pass gets as far as the parse and \<^verbatim>\<open>legallyParseGFWList\<close> returns an error,
  the pass ends in \<^verbatim>\<open>glog.Fatalf\<close>, where every other failure of the loop ends in a
  warning and \<^verbatim>\<open>continue\<close>: the process exits and the later ticks are not served. By
  then \<^verbatim>\<open>Domains\<close> has been assigned \<^verbatim>\<open>nil\<close> under the write lock, which is not
  released; the cache is as it was.
\<close>

lemma pacUpdater_parse_failure:
  assumes "stageCheck ops env f = Inr f1" and "stageDownload env f1 = Inr (data, f2)"
    and "stagePersist ops data f2 = Inr f3"
    and "legallyParseGFWList (urlParseHost env) ops (Filename (GFWList f3)) (Store f3) =
      Done (Inl e, st)"
  shows "\<exists>f'. pacUpdater ops (env # envs) f = (Exited, f') \<and>
    Domains (GFWListDomains f') = [] \<and> mu (GFWListDomains f') \<and>
    ProxyPacCache f' = ProxyPacCache f \<and>
    history f' = history f @ [StoreHeadEv, RoundTripEv, StoreDeleteEv, StorePutEv data,
      LockEv, UpdateEv [], FatalEv]"
proof -
  let ?f' = "emit FatalEv (setDomains [] ((Lock f3)\<lparr>Store := st\<rparr>))"
  from pacUpdaterCycle_stages [OF assms(1-3)] stagePublish_parse_failure [OF assms(4)]
  have "pacUpdaterCycle ops env f = (Fatal, ?f')" by simp
  then have "pacUpdater ops (env # envs) f = (Exited, ?f')" by simp
  moreover have "Domains (GFWListDomains ?f') = []" "mu (GFWListDomains ?f')"
    "ProxyPacCache ?f' = ProxyPacCache f"
    "history ?f' = history f @ [StoreHeadEv, RoundTripEv, StoreDeleteEv, StorePutEv data,
      LockEv, UpdateEv [], FatalEv]"
    using fatal_state [where f = f3 and st = st] stageCheck_Inr [OF assms(1)]
      stageDownload_Inr [OF assms(2)] stagePersist_Inr [OF assms(3)]
    by simp_all
  ultimately show ?thesis by blast
qed

lemma example_check:
  "stageCheck brokenStore (exampleEnv 7200000000000) exampleFilter =
     Inr (emit StoreHeadEv exampleFilter)"
  by (simp add: stageCheck_def brokenStore_def fileStore_def exampleFilter_def exampleEnv_def
      fileResponse_def HeaderGet_def emit_def Sub_def minDuration_def maxDuration_def)

lemma example_download:
  "stageDownload (exampleEnv 7200000000000) (emit StoreHeadEv exampleFilter) =
     Inr (''||foo.org/x'' @ [CHR 0x0A] @ ''.bar.co'',
          emit RoundTripEv (emit StoreHeadEv exampleFilter))"
  by (simp add: stageDownload_def exampleEnv_def exampleFilter_def fileResponse_def emit_def
      readBody_def ReadAll_def NewReader_def)

lemma example_persist:
  "\<exists>f3. stagePersist brokenStore (''||foo.org/x'' @ [CHR 0x0A] @ ''.bar.co'')
       (emit RoundTripEv (emit StoreHeadEv exampleFilter)) = Inr f3"
  by (simp add: stagePersist_def brokenStore_def fileStore_def exampleFilter_def emit_def)

lemma example_parse_failure:
  "legallyParseGFWList u brokenStore name st = Done (Inl (ErrOther ''timeout''), st)"
  by (simp add: legallyParseGFWList_def brokenStore_def)

text \<open>
  Claim C2 at a store that takes the new bytes and then fails to read them back. The
  failure is not recovered from: the process exits at the first of two ticks, the
  domains published before are gone, and the second tick is not served.
\<close>

theorem pacUpdater_unreadable_store:
  "fst (pacUpdater brokenStore [exampleEnv 7200000000000, exampleEnv 7200000000000] exampleFilter) =
     Exited \<and>
   Domains (GFWListDomains (snd (pacUpdater brokenStore
     [exampleEnv 7200000000000, exampleEnv 7200000000000] exampleFilter))) = [] \<and>
   Domains (GFWListDomains exampleFilter) = [''example.com''] \<and>
   history (snd (pacUpdater brokenStore
     [exampleEnv 7200000000000, exampleEnv 7200000000000] exampleFilter)) =
     [StoreHeadEv, RoundTripEv, StoreDeleteEv,
      StorePutEv (''||foo.org/x'' @ [CHR 0x0A] @ ''.bar.co''), LockEv, UpdateEv [], FatalEv]"
proof -
  from example_persist obtain f3 where
    p: "stagePersist brokenStore (''||foo.org/x'' @ [CHR 0x0A] @ ''.bar.co'')
       (emit RoundTripEv (emit StoreHeadEv exampleFilter)) = Inr f3"
    by blast
  from pacUpdater_parse_failure [OF example_check example_download p example_parse_failure,
      of "[exampleEnv 7200000000000]"]
  obtain f' where
    "pacUpdater brokenStore [exampleEnv 7200000000000, exampleEnv 7200000000000] exampleFilter =
       (Exited, f')"
    "Domains (GFWListDomains f') = []"
    "history f' = history exampleFilter @ [StoreHeadEv, RoundTripEv, StoreDeleteEv,
      StorePutEv (''||foo.org/x'' @ [CHR 0x0A] @ ''.bar.co''), LockEv, UpdateEv [], FatalEv]"
    by blast
  moreover have "Domains (GFWListDomains exampleFilter) = [''example.com'']"
    "history exampleFilter = []"
    by (simp_all add: exampleFilter_def)
  ultimately show ?thesis by simp
qed

section \<open>Further properties\<close>

lemma expand_no_dollar: "CHR ''$'' \<notin> set t \<Longrightarrow> expand uni t m = t"
  by (induction t) auto

lemma dropWhile_digits:
  assumes "list_all isDigit ds" and "rest = [] \<or> \<not> isDigit (hd rest)"
  shows "dropWhile isDigit (ds @ rest) = rest"
proof -
  from assms(1) have "dropWhile isDigit (ds @ rest) = dropWhile isDigit rest"
    by (simp add: dropWhile_append list_all_iff)
  also from assms(2) have "\<dots> = rest" by (cases rest) auto
  finally show ?thesis .
qed

lemma matchPlaceholder_literal:
  assumes "ds \<noteq> []" and "list_all isDigit ds" and "rest = [] \<or> \<not> isDigit (hd rest)"
  shows "matchPlaceholder (''PROXY 127.0.1.2:'' @ ds @ rest) = Some rest"
proof -
  from assms(1) obtain d ds' where ds: "ds = d # ds'" by (cases ds) auto
  with assms(2) have "isDigit d" by simp
  then have "digits1 (ds @ rest) = Some (dropWhile isDigit (ds @ rest))"
    by (simp add: digits1_def ds)
  with dropWhile_digits [OF assms(2,3)] have "digits1 (ds @ rest) = Some rest" by simp
  then show ?thesis
    by (simp add: matchPlaceholder_def lit_def localhost2_def anyChar_def)
qed

text \<open>
  For a host without a dollar sign the replacement is the text \<^verbatim>\<open>PROXY\<close>, a blank and
  the host, and a placeholder with the address \<^verbatim>\<open>127.0.1.2\<close> and a port of digits at
  the head of the script is replaced by it; where no match begins, one byte is copied.
\<close>

theorem fixProxyPac_placeholder:
  assumes "CHR ''$'' \<notin> set (Host req)"
  shows "(ds \<noteq> [] \<and> list_all isDigit ds \<and> (rest = [] \<or> \<not> isDigit (hd rest)) \<longrightarrow>
      fixProxyPac uni (''PROXY 127.0.1.2:'' @ ds @ rest) req =
        ''PROXY '' @ Host req @ fixProxyPac uni rest req) \<and>
    (matchPlaceholder (c # cs) = None \<longrightarrow> fixProxyPac uni (c # cs) req = c # fixProxyPac uni cs req) \<and>
    fixProxyPac uni [] req = []"
proof -
  from assms have e: "expand uni (''PROXY '' @ Host req) m = ''PROXY '' @ Host req" for m
    by (intro expand_no_dollar) simp
  have "fixProxyPac uni (''PROXY 127.0.1.2:'' @ ds @ rest) req = ''PROXY '' @ Host req @ fixProxyPac uni rest req"
    if "ds \<noteq> []" "list_all isDigit ds" "rest = [] \<or> \<not> isDigit (hd rest)"
    using matchPlaceholder_literal [OF that] e
    by (simp add: fixProxyPac_def)
  moreover have "fixProxyPac uni (c # cs) req = c # fixProxyPac uni cs req"
    if "matchPlaceholder (c # cs) = None"
    using that by (simp add: fixProxyPac_def)
  moreover have "fixProxyPac uni [] req = []" by (simp add: fixProxyPac_def)
  ultimately show ?thesis by blast
qed

theorem fixProxyPac_placeholder_witness:
  "fixProxyPac (\<lambda>r. False) (''PROXY 127.0.1.2:'' @ ''8087'' @ ''; x'')
     \<lparr>Host = ''10.0.0.1:8087'', Path = ''/''\<rparr> =
   ''PROXY '' @ ''10.0.0.1:8087'' @
     fixProxyPac (\<lambda>r. False) ''; x'' \<lparr>Host = ''10.0.0.1:8087'', Path = ''/''\<rparr>"
  using fixProxyPac_placeholder [of "\<lparr>Host = ''10.0.0.1:8087'', Path = ''/''\<rparr>" "''8087''" "''; x''"
      "\<lambda>r. False"]
  by (simp add: isDigit_def)

text \<open>
  A line of 65536 bytes or more does not fit the scanner's buffer:
  \<^verbatim>\<open>parseAutoProxy\<close> returns \<^verbatim>\<open>bufio.ErrTooLong\<close> for a file that has one, whatever
  its other lines hold.
\<close>

theorem parseAutoProxy_too_long:
  assumes "CHR 0x0A \<notin> set l" and "65536 \<le> length l"
  shows "parseAutoProxy urlHost \<lparr>r_data = l @ CHR 0x0A # rest, r_err = e\<rparr> = Inl ErrTooLong"
proof -
  from assms(1) have "rawLines [] (l @ CHR 0x0A # rest) = l # rawLines [] rest"
    using rawLines_line [of l "[]" rest] by simp
  with assms(2) show ?thesis
    by (simp add: parseAutoProxy_def scannerErr_def MaxScanTokenSize_def)
qed

theorem parseAutoProxy_too_long_witness:
  "parseAutoProxy (\<lambda>s. None)
     \<lparr>r_data = replicate 65536 (CHR ''a'') @ CHR 0x0A # ''||example.com'', r_err = None\<rparr> =
   Inl ErrTooLong"
  using parseAutoProxy_too_long [of "replicate 65536 (CHR ''a'')" "\<lambda>s. None" "''||example.com''" None]
  by simp

lemma finite_scanLoop: "finite sites \<Longrightarrow> finite (scanLoop urlHost ls sites)"
  by (induction ls arbitrary: sites) (auto split: option.splits)

text \<open>
  The list that \<^verbatim>\<open>legallyParseGFWList\<close> returns is sorted and has no rule twice, and
  its rules are those that the lines of the stored file add.
\<close>

theorem legallyParseGFWList_sorted:
  assumes "legallyParseGFWList urlHost ops filename st = Done (Inr ds, st')"
  shows "sorted ds \<and> distinct ds \<and>
    (\<exists>r body. StoreGet ops filename st = ((Some r, None), st') \<and> Body r = Some body \<and>
       set ds = scanLoop urlHost (ScanLines (r_data body)) {})"
proof -
  from assms obtain r body sites where
    g: "StoreGet ops filename st = ((Some r, None), st')" and b: "Body r = Some body"
    and p: "parseAutoProxy urlHost body = Inr sites" and d: "ds = sorted_list_of_set sites"
    by (auto simp: legallyParseGFWList_def split: prod.splits option.splits sum.splits)
  from p have s: "sites = scanLoop urlHost (ScanLines (r_data body)) {}"
    by (auto simp: parseAutoProxy_def split: option.splits)
  then have "finite sites" by (simp add: finite_scanLoop)
  with d s g b show ?thesis by auto
qed

lemma example_parse:
  "\<exists>st'. legallyParseGFWList (\<lambda>s. None) fileStore ''gfwlist.txt''
     [''gfwlist.txt'' \<mapsto> ''||foo.org/x'' @ [CHR 0x0A] @ ''.bar.co''] =
   Done (Inr [''bar.com'', ''foo.org''], st')"
proof -
  have "case legallyParseGFWList (\<lambda>s. None) fileStore ''gfwlist.txt''
      [''gfwlist.txt'' \<mapsto> ''||foo.org/x'' @ [CHR 0x0A] @ ''.bar.co''] of
      Done (Inr ds, st') \<Rightarrow> ds = [''bar.com'', ''foo.org''] | _ \<Rightarrow> False"
    by code_simp
  then show ?thesis
    by (auto split: outcome.splits sum.splits prod.splits)
qed

theorem legallyParseGFWList_sorted_witness:
  "sorted [''bar.com'', ''foo.org''] \<and> distinct [''bar.com'', ''foo.org'']"
proof -
  from example_parse obtain st' where
    "legallyParseGFWList (\<lambda>s. None) fileStore ''gfwlist.txt''
       [''gfwlist.txt'' \<mapsto> ''||foo.org/x'' @ [CHR 0x0A] @ ''.bar.co''] =
     Done (Inr [''bar.com'', ''foo.org''], st')"
    by blast
  from legallyParseGFWList_sorted [OF this] show ?thesis by blast
qed

end
